theory Spec2Isabelle
  imports Main "HOL-Library.Sublist"
begin

section \<open>JavaScript values and strings\<close>

text \<open>
  The worker is JavaScript. The values that reach the modelled code are environment
  bindings, query parameters and log metadata: \<open>undefined\<close>, \<open>null\<close>, booleans, integers
  and strings. Strings are ASCII texts (\<open>char list\<close>).
\<close>

datatype jsval = JUndefined | JNull | JBool bool | JNum int | JStr string

text \<open>JavaScript truthiness: what \<open>if (v)\<close>, \<open>!v\<close>, \<open>v && w\<close> and \<open>v || w\<close> test.\<close>

fun truthy :: "jsval \<Rightarrow> bool" where
  "truthy JUndefined = False"
| "truthy JNull = False"
| "truthy (JBool b) = b"
| "truthy (JNum n) = (n \<noteq> 0)"
| "truthy (JStr s) = (s \<noteq> [])"

text \<open>
  An optional string (\<open>None\<close> is \<open>null\<close> or \<open>undefined\<close>): a query parameter, an
  environment binding, the optional fifth argument of \<open>ensureLoggedIn\<close>. The empty string
  is falsy as well.
\<close>

fun truthy_str :: "string option \<Rightarrow> bool" where
  "truthy_str None = False"
| "truthy_str (Some s) = (s \<noteq> [])"

text \<open>\<open>a || b\<close> on optional strings.\<close>

definition or_else :: "string option \<Rightarrow> string option \<Rightarrow> string option" where
  "or_else a b = (if truthy_str a then a else b)"

text \<open>\<open>a || 'literal'\<close>: the default is a non-empty literal.\<close>

definition or_default :: "string option \<Rightarrow> string \<Rightarrow> string" where
  "or_default a d = (case a of None \<Rightarrow> d | Some s \<Rightarrow> if s = [] then d else s)"

text \<open>
  \<open>s.indexOf(t)\<close>: the first position at which \<open>t\<close> occurs in \<open>s\<close>, or \<open>-1\<close>.
\<close>

fun index_from :: "string \<Rightarrow> string \<Rightarrow> nat option" where
  "index_from [] t = (if t = [] then Some 0 else None)"
| "index_from (c # cs) t =
     (if prefix t (c # cs) then Some 0 else map_option Suc (index_from cs t))"

definition indexOf :: "string \<Rightarrow> string \<Rightarrow> int" where
  "indexOf s t = (case index_from s t of None \<Rightarrow> - 1 | Some i \<Rightarrow> int i)"

text \<open>\<open>s.toUpperCase()\<close> on ASCII text: the letters a to z are mapped, the rest is kept.\<close>

definition upper_char :: "char \<Rightarrow> char" where
  "upper_char c =
     (case map_of (zip ''abcdefghijklmnopqrstuvwxyz'' ''ABCDEFGHIJKLMNOPQRSTUVWXYZ'') c of
        None \<Rightarrow> c
      | Some u \<Rightarrow> u)"

definition toUpperCase :: "string \<Rightarrow> string" where
  "toUpperCase s = map upper_char s"

subsection \<open>JSON.stringify on a flat object\<close>

fun digit_char :: "nat \<Rightarrow> char" where
  "digit_char n = ''0123456789abcdef'' ! (n mod 16)"

fun decimal :: "nat \<Rightarrow> string" where
  "decimal n = (if n < 10 then [digit_char n] else decimal (n div 10) @ [digit_char (n mod 10)])"

declare decimal.simps [simp del]

definition number_text :: "int \<Rightarrow> string" where
  "number_text i = (if i < 0 then CHR ''-'' # decimal (nat (- i)) else decimal (nat i))"

text \<open>
  The escapes of a JSON string: the quote, the backslash, the short forms of the control
  characters and \<open>\u00XX\<close> for the other characters below 0x20.
\<close>

definition json_escape :: "char \<Rightarrow> string" where
  "json_escape c =
     (if c = CHR ''\"'' then [CHR 0x5C, CHR ''\"'']
      else if c = CHR 0x5C then [CHR 0x5C, CHR 0x5C]
      else if c = CHR 0x08 then [CHR 0x5C, CHR ''b'']
      else if c = CHR 0x09 then [CHR 0x5C, CHR ''t'']
      else if c = CHR 0x0A then [CHR 0x5C, CHR ''n'']
      else if c = CHR 0x0C then [CHR 0x5C, CHR ''f'']
      else if c = CHR 0x0D then [CHR 0x5C, CHR ''r'']
      else if (of_char c :: nat) < 32 then
        [CHR 0x5C, CHR ''u'', CHR ''0'', CHR ''0'',
         digit_char (of_char c div 16), digit_char (of_char c mod 16)]
      else [c])"

definition json_string :: "string \<Rightarrow> string" where
  "json_string s = [CHR ''\"''] @ concat (map json_escape s) @ [CHR ''\"'']"

fun json_value :: "jsval \<Rightarrow> string" where
  "json_value JUndefined = ''undefined''"
| "json_value JNull = ''null''"
| "json_value (JBool b) = (if b then ''true'' else ''false'')"
| "json_value (JNum n) = number_text n"
| "json_value (JStr s) = json_string s"

fun join_with :: "string \<Rightarrow> string list \<Rightarrow> string" where
  "join_with sep [] = []"
| "join_with sep [x] = x"
| "join_with sep (x # y # ys) = x @ sep @ join_with sep (y # ys)"

text \<open>
  An object is the list of its own properties in insertion order, as
  \<open>Object.entries\<close> enumerates them. \<open>JSON.stringify\<close> leaves out a property whose value
  is \<open>undefined\<close>.
\<close>

type_synonym jsobject = "(string \<times> jsval) list"

definition json_object :: "jsobject \<Rightarrow> string" where
  "json_object obj =
     ''{'' @ join_with '',''
        (map (\<lambda>(k, v). json_string k @ '':'' @ json_value v)
          (filter (\<lambda>(k, v). v \<noteq> JUndefined) obj)) @ ''}''"

section \<open>The environment\<close>

text \<open>
  The bindings of \<open>env\<close> that the worker reads. \<open>DEBUG\<close> is compared with \<open>===\<close>, so its
  type matters and it is a \<open>jsval\<close>; the others are used as strings or tested for
  truthiness. The key-value namespace \<open>env.BROWSER_KV_DEMO\<close> and the browser binding are
  part of the runtime below.
\<close>

record env =
  DEBUG :: jsval
  LOGIN_USER :: "string option"
  LOGIN_PASS :: "string option"
  LOGIN_USER_SELECTOR :: "string option"
  LOGIN_PASS_SELECTOR :: "string option"
  LOGIN_SUBMIT_SELECTOR :: "string option"
  LOGIN_SUCCESS_SELECTOR :: "string option"
  TARGET_URL :: "string option"
  LOGIN_URL :: "string option"

section \<open>Logging: maskSecrets and log\<close>

text \<open>
  Both workers of \<open>src/index.js\<close> define \<open>maskSecrets\<close> and \<open>log\<close> with the same text
  (lines 19 to 51 and 357 to 388).

  \<open>maskSecrets(key, value)\<close>: the key is upper-cased and then looked up in the list
  \<open>secretKeys\<close>, which the source writes as
  \<open>['LOGIN_PASS', 'LOGIN_USER', 'password', 'passwd']\<close>.
\<close>

definition secretKeys :: "string list" where
  "secretKeys = [''LOGIN_PASS'', ''LOGIN_USER'', ''password'', ''passwd'']"

definition maskSecrets :: "string \<Rightarrow> jsval \<Rightarrow> jsval" where
  "maskSecrets key v =
     (if key = [] then v
      else if toUpperCase key \<in> set secretKeys then JStr ''****''
      else v)"

text \<open>
  \<open>log(env, level, message, meta)\<close>. \<open>env\<close> may be missing (\<open>None\<close>); \<open>meta\<close> is an object
  or missing. The debug test is
  \<open>env && (env.DEBUG === 'false' || env.DEBUG === '0') ? false : true\<close>.
  The metadata is rebuilt property by property through \<open>maskSecrets\<close>; the handler
  around that call (\<open>acc[k] = String(v)\<close>) is never entered, since the key of an entry is
  a string and \<open>maskSecrets\<close> then raises nothing.

  A console line is the timestamp, the level, the message and the masked metadata.
  \<open>log_entry\<close> is the line without its timestamp, \<open>None\<close> when nothing is printed;
  \<open>render\<close> is the text that \<open>console.log\<close> receives, given the value of
  \<open>new Date().toISOString()\<close>.
\<close>

definition debug_enabled :: "env option \<Rightarrow> bool" where
  "debug_enabled e =
     (case e of
        None \<Rightarrow> True
      | Some ev \<Rightarrow> if DEBUG ev = JStr ''false'' \<or> DEBUG ev = JStr ''0'' then False else True)"

datatype log_line = LogLine (level: string) (message: string) (meta: "jsobject option")

definition mask_meta :: "jsobject \<Rightarrow> jsobject" where
  "mask_meta m = map (\<lambda>(k, v). (k, maskSecrets k v)) m"

definition log_entry :: "env option \<Rightarrow> string \<Rightarrow> string \<Rightarrow> jsobject option \<Rightarrow> log_line option" where
  "log_entry e lvl msg m =
     (if debug_enabled e then Some (LogLine lvl msg (map_option mask_meta m)) else None)"

definition render :: "string \<Rightarrow> log_line \<Rightarrow> string" where
  "render ts l =
     (case meta l of
        Some metaStr \<Rightarrow>
          ''['' @ ts @ ''] ['' @ level l @ ''] '' @ message l @ '' '' @ json_object metaStr
      | None \<Rightarrow> ''['' @ ts @ ''] ['' @ level l @ ''] '' @ message l)"

definition log :: "string \<Rightarrow> env option \<Rightarrow> string \<Rightarrow> string \<Rightarrow> jsobject option \<Rightarrow> string option" where
  "log ts e lvl msg m = map_option (render ts) (log_entry e lvl msg m)"

section \<open>Errors, promises and the runtime\<close>

text \<open>A thrown value is an \<open>Error\<close> with its message (\<open>e.message\<close>).\<close>

datatype error = Error string

fun error_message :: "error \<Rightarrow> string" where
  "error_message (Error m) = m"

text \<open>
  A promise, seen from the code that holds it: the time at which it settles and how
  (\<open>Inl\<close> rejected, \<open>Inr\<close> fulfilled). Times are ticks of the runtime's clock.

  \<open>p.catch(() => null)\<close> settles when \<open>p\<close> does and is never rejected.
  \<open>Promise.race([a, b])\<close>, called at time \<open>t0\<close>, settles as soon as one of the two has
  settled and not before \<open>t0\<close>; it takes the outcome of the first promise of the array
  that has settled by then.
\<close>

datatype 'a promise = Promise (settles_at: nat) (outcome: "error + 'a")

definition catch_null :: "'a promise \<Rightarrow> 'a option promise" where
  "catch_null p =
     Promise (settles_at p) (case outcome p of Inl e \<Rightarrow> Inr None | Inr x \<Rightarrow> Inr (Some x))"

definition promise_race :: "nat \<Rightarrow> 'a promise \<Rightarrow> 'a promise \<Rightarrow> 'a promise" where
  "promise_race t0 a b =
     (let t = max t0 (min (settles_at a) (settles_at b))
      in if settles_at a \<le> t then Promise t (outcome a) else Promise t (outcome b))"

datatype cookie = Cookie string string

text \<open>
  What \<open>JSON.parse(saved)\<close> can give, as far as \<open>cookies && cookies.length\<close> and
  \<open>page.setCookie(...cookies)\<close> tell values apart: an array or a string (its elements are
  spread into the call), a value without a truthy \<open>length\<close>, or a value with a truthy
  \<open>length\<close> that cannot be spread (the spread raises a TypeError; the model gives it the
  message \<open>cookies is not iterable\<close>).
\<close>

datatype parsed = PCookies "cookie list" | PNoLength | PUnspreadable

type_synonym frame = nat
type_synonym form = nat
type_synonym image = string

text \<open>
  The two predicates that the code hands to \<open>page.waitForFunction\<close>:
  \<open>(expected) => window.location.href.indexOf(expected) === 0\<close> and
  \<open>(login) => window.location.href !== login\<close>.
\<close>

datatype wait_pred = ExpectedReached string | LeftLogin string

fun holds_at :: "wait_pred \<Rightarrow> string \<Rightarrow> bool" where
  "holds_at (ExpectedReached expected) href = (indexOf href expected = 0)"
| "holds_at (LeftLogin login) href = (href \<noteq> login)"

text \<open>
  The runtime is everything outside the worker's own code: the page handle, its frames,
  the key-value namespace, the browser and the clock. It is a state machine over a state
  \<open>'w\<close> that the model never inspects. An awaited call gives its result (or the error it
  throws) and the next state. The two calls that the code also uses as watchers,
  \<open>page.waitForNavigation\<close> and \<open>page.waitForSelector\<close>, give the promise they return;
  awaiting a promise lets the runtime run until the promise has settled.
\<close>

record 'w runtime =
  now :: "'w \<Rightarrow> nat"
  run_until :: "nat \<Rightarrow> 'w \<Rightarrow> 'w"
  kv_get :: "string \<Rightarrow> 'w \<Rightarrow> (error + string option) \<times> 'w"
  kv_put :: "string \<Rightarrow> string \<Rightarrow> nat \<Rightarrow> 'w \<Rightarrow> (error + unit) \<times> 'w"
  kv_delete :: "string \<Rightarrow> 'w \<Rightarrow> (error + unit) \<times> 'w"
  kv_get_buffer :: "string \<Rightarrow> 'w \<Rightarrow> (error + image option) \<times> 'w"
  kv_put_buffer :: "string \<Rightarrow> image \<Rightarrow> nat \<Rightarrow> 'w \<Rightarrow> (error + unit) \<times> 'w"
  json_parse :: "string \<Rightarrow> error + parsed"
  json_stringify :: "cookie list \<Rightarrow> string"
  url_normalize :: "string \<Rightarrow> error + string"
  browser_launch :: "'w \<Rightarrow> (error + unit) \<times> 'w"
  browser_close :: "'w \<Rightarrow> (error + unit) \<times> 'w"
  page_setCookie :: "cookie list \<Rightarrow> 'w \<Rightarrow> (error + unit) \<times> 'w"
  page_goto :: "string \<Rightarrow> bool \<Rightarrow> 'w \<Rightarrow> (error + unit) \<times> 'w"
  page_query :: "string \<Rightarrow> 'w \<Rightarrow> (error + bool) \<times> 'w"
  page_waitForSelector :: "string \<Rightarrow> nat \<Rightarrow> 'w \<Rightarrow> unit promise \<times> 'w"
  page_type :: "string \<Rightarrow> string option \<Rightarrow> 'w \<Rightarrow> (error + unit) \<times> 'w"
  page_waitForNavigation :: "nat \<Rightarrow> 'w \<Rightarrow> unit promise \<times> 'w"
  page_click :: "string \<Rightarrow> 'w \<Rightarrow> (error + unit) \<times> 'w"
  page_frames :: "'w \<Rightarrow> (error + frame list) \<times> 'w"
  frame_queryAll :: "frame \<Rightarrow> string \<Rightarrow> 'w \<Rightarrow> (error + form list) \<times> 'w"
  frame_action :: "frame \<Rightarrow> form \<Rightarrow> 'w \<Rightarrow> (error + string option) \<times> 'w"
  frame_submit :: "frame \<Rightarrow> form \<Rightarrow> 'w \<Rightarrow> (error + unit) \<times> 'w"
  frame_url :: "frame \<Rightarrow> 'w \<Rightarrow> string"
  page_url :: "'w \<Rightarrow> string"
  page_waitForFunction :: "wait_pred \<Rightarrow> nat \<Rightarrow> 'w \<Rightarrow> (error + unit) \<times> 'w"
  page_cookies :: "'w \<Rightarrow> (error + cookie list) \<times> 'w"
  page_screenshot :: "'w \<Rightarrow> (error + image) \<times> 'w"

text \<open>
  What a run leaves behind, in order: the calls it made on the page, the frames, the
  store and the browser (\<open>Op\<close>), and what it printed. \<open>page.url()\<close> and \<open>frame.url()\<close>
  only read and are not recorded.
\<close>

datatype op =
    KvGet string
  | KvPut string string nat
  | KvDelete string
  | KvGetBuffer string
  | KvPutBuffer string image nat
  | Launch
  | Close
  | SetCookie "cookie list"
  | Goto string bool
  | Query string
  | WaitForSelector string nat
  | Type string "string option"
  | WaitForNavigation nat
  | Click string
  | Frames
  | FrameQueryAll frame string
  | FrameAction frame form
  | FrameSubmit frame form
  | WaitForFunction wait_pred nat
  | Cookies
  | Screenshot

datatype event = Op op | Console log_line | ConsoleWarn "string list"

text \<open>
  An action of the worker: from a state of the runtime to a result or a thrown error, the
  next state and the events of the action.
\<close>

type_synonym ('w, 'a) action = "'w \<Rightarrow> (error + 'a) \<times> 'w \<times> event list"

definition retM :: "'a \<Rightarrow> ('w, 'a) action" where
  "retM x = (\<lambda>w. (Inr x, w, []))"

definition throwM :: "error \<Rightarrow> ('w, 'a) action" where
  "throwM e = (\<lambda>w. (Inl e, w, []))"

definition bindM :: "('w, 'a) action \<Rightarrow> ('a \<Rightarrow> ('w, 'b) action) \<Rightarrow> ('w, 'b) action" where
  "bindM m f =
     (\<lambda>w. case m w of
        (Inl e, w1, t1) \<Rightarrow> (Inl e, w1, t1)
      | (Inr x, w1, t1) \<Rightarrow> (case f x w1 of (r, w2, t2) \<Rightarrow> (r, w2, t1 @ t2)))"

definition seqM :: "('w, 'a) action \<Rightarrow> ('w, 'b) action \<Rightarrow> ('w, 'b) action" where
  "seqM m k = bindM m (\<lambda>_. k)"

text \<open>\<open>try { m } catch (e) { h(e) }\<close>.\<close>

definition tryCatch :: "('w, 'a) action \<Rightarrow> (error \<Rightarrow> ('w, 'a) action) \<Rightarrow> ('w, 'a) action" where
  "tryCatch m h =
     (\<lambda>w. case m w of
        (Inl e, w1, t1) \<Rightarrow> (case h e w1 of (r, w2, t2) \<Rightarrow> (r, w2, t1 @ t2))
      | (Inr x, w1, t1) \<Rightarrow> (Inr x, w1, t1))"

text \<open>\<open>await m.catch(() => null)\<close> on an awaited call.\<close>

definition swallow :: "('w, 'a) action \<Rightarrow> ('w, 'a option) action" where
  "swallow m = tryCatch (bindM m (\<lambda>x. retM (Some x))) (\<lambda>_. retM None)"

text \<open>The same where the call gives a value or \<open>null\<close> already.\<close>

definition orNull :: "('w, 'a option) action \<Rightarrow> ('w, 'a option) action" where
  "orNull m = tryCatch m (\<lambda>_. retM None)"

text \<open>An awaited call of the runtime, recorded as an operation.\<close>

definition perform :: "op \<Rightarrow> ('w \<Rightarrow> (error + 'a) \<times> 'w) \<Rightarrow> ('w, 'a) action" where
  "perform c f = (\<lambda>w. case f w of (r, w1) \<Rightarrow> (r, w1, [Op c]))"

text \<open>A call that returns a promise: the call itself does not throw.\<close>

definition start :: "op \<Rightarrow> ('w \<Rightarrow> 'a promise \<times> 'w) \<Rightarrow> ('w, 'a promise) action" where
  "start c f = (\<lambda>w. case f w of (p, w1) \<Rightarrow> (Inr p, w1, [Op c]))"

text \<open>
  \<open>await p\<close>: the runtime runs until \<open>p\<close> has settled (no time passes when it already
  has), then the outcome of \<open>p\<close> is the value or the exception of the \<open>await\<close>.
\<close>

definition awaitP :: "'w runtime \<Rightarrow> 'a promise \<Rightarrow> ('w, 'a) action" where
  "awaitP R p =
     (\<lambda>w. (outcome p, (if settles_at p \<le> now R w then w else run_until R (settles_at p) w), []))"

text \<open>Reading the runtime without changing it (\<open>page.url()\<close>, \<open>frame.url()\<close>, the clock).\<close>

definition readM :: "('w \<Rightarrow> 'a) \<Rightarrow> ('w, 'a) action" where
  "readM f = (\<lambda>w. (Inr (f w), w, []))"

text \<open>
  A call of \<open>log\<close> inside the worker, where \<open>env\<close> is always present; \<open>console.warn\<close> is
  called directly at one place.
\<close>

definition printed :: "env \<Rightarrow> string \<Rightarrow> string \<Rightarrow> jsobject option \<Rightarrow> event list" where
  "printed e lvl msg m =
     (case log_entry (Some e) lvl msg m of None \<Rightarrow> [] | Some l \<Rightarrow> [Console l])"

definition logM :: "env \<Rightarrow> string \<Rightarrow> string \<Rightarrow> jsobject option \<Rightarrow> ('w, unit) action" where
  "logM e lvl msg m = (\<lambda>w. (Inr (), w, printed e lvl msg m))"

definition warnM :: "string list \<Rightarrow> ('w, unit) action" where
  "warnM args = (\<lambda>w. (Inr (), w, [ConsoleWarn args]))"

definition js_str :: "string option \<Rightarrow> jsval" where
  "js_str s = (case s of None \<Rightarrow> JNull | Some t \<Rightarrow> JStr t)"

definition js_len :: "'a list \<Rightarrow> jsval" where
  "js_len xs = JNum (int (length xs))"

definition error_meta :: "error \<Rightarrow> jsobject option" where
  "error_meta e = Some [(''error'', JStr (error_message e))]"

subsection \<open>The calls of the worker on the runtime\<close>

definition kvGet :: "'w runtime \<Rightarrow> string \<Rightarrow> ('w, string option) action" where
  "kvGet R k = perform (KvGet k) (kv_get R k)"

definition kvPut :: "'w runtime \<Rightarrow> string \<Rightarrow> string \<Rightarrow> nat \<Rightarrow> ('w, unit) action" where
  "kvPut R k v ttl = perform (KvPut k v ttl) (kv_put R k v ttl)"

definition kvDelete :: "'w runtime \<Rightarrow> string \<Rightarrow> ('w, unit) action" where
  "kvDelete R k = perform (KvDelete k) (kv_delete R k)"

definition kvGetBuffer :: "'w runtime \<Rightarrow> string \<Rightarrow> ('w, image option) action" where
  "kvGetBuffer R k = perform (KvGetBuffer k) (kv_get_buffer R k)"

definition kvPutBuffer :: "'w runtime \<Rightarrow> string \<Rightarrow> image \<Rightarrow> nat \<Rightarrow> ('w, unit) action" where
  "kvPutBuffer R k v ttl = perform (KvPutBuffer k v ttl) (kv_put_buffer R k v ttl)"

definition jsonParse :: "'w runtime \<Rightarrow> string \<Rightarrow> ('w, parsed) action" where
  "jsonParse R s = (\<lambda>w. (json_parse R s, w, []))"

definition newURL :: "'w runtime \<Rightarrow> string \<Rightarrow> ('w, string) action" where
  "newURL R s = (\<lambda>w. (url_normalize R s, w, []))"

definition browserLaunch :: "'w runtime \<Rightarrow> ('w, unit) action" where
  "browserLaunch R = perform Launch (browser_launch R)"

definition browserClose :: "'w runtime \<Rightarrow> ('w, unit) action" where
  "browserClose R = perform Close (browser_close R)"

definition pageSetCookie :: "'w runtime \<Rightarrow> cookie list \<Rightarrow> ('w, unit) action" where
  "pageSetCookie R cs = perform (SetCookie cs) (page_setCookie R cs)"

definition pageGoto :: "'w runtime \<Rightarrow> string \<Rightarrow> bool \<Rightarrow> ('w, unit) action" where
  "pageGoto R u idle = perform (Goto u idle) (page_goto R u idle)"

definition pageQuery :: "'w runtime \<Rightarrow> string \<Rightarrow> ('w, bool) action" where
  "pageQuery R sel = perform (Query sel) (page_query R sel)"

definition pageWaitForSelector :: "'w runtime \<Rightarrow> string \<Rightarrow> nat \<Rightarrow> ('w, unit promise) action" where
  "pageWaitForSelector R sel ms = start (WaitForSelector sel ms) (page_waitForSelector R sel ms)"

definition pageType :: "'w runtime \<Rightarrow> string \<Rightarrow> string option \<Rightarrow> ('w, unit) action" where
  "pageType R sel txt = perform (Type sel txt) (page_type R sel txt)"

definition pageWaitForNavigation :: "'w runtime \<Rightarrow> nat \<Rightarrow> ('w, unit promise) action" where
  "pageWaitForNavigation R ms = start (WaitForNavigation ms) (page_waitForNavigation R ms)"

definition pageClick :: "'w runtime \<Rightarrow> string \<Rightarrow> ('w, unit) action" where
  "pageClick R sel = perform (Click sel) (page_click R sel)"

definition pageFrames :: "'w runtime \<Rightarrow> ('w, frame list) action" where
  "pageFrames R = perform Frames (page_frames R)"

definition frameQueryAll :: "'w runtime \<Rightarrow> frame \<Rightarrow> string \<Rightarrow> ('w, form list) action" where
  "frameQueryAll R fr sel = perform (FrameQueryAll fr sel) (frame_queryAll R fr sel)"

definition frameAction :: "'w runtime \<Rightarrow> frame \<Rightarrow> form \<Rightarrow> ('w, string option) action" where
  "frameAction R fr f = perform (FrameAction fr f) (frame_action R fr f)"

definition frameSubmit :: "'w runtime \<Rightarrow> frame \<Rightarrow> form \<Rightarrow> ('w, unit) action" where
  "frameSubmit R fr f = perform (FrameSubmit fr f) (frame_submit R fr f)"

definition pageWaitForFunction :: "'w runtime \<Rightarrow> wait_pred \<Rightarrow> nat \<Rightarrow> ('w, unit) action" where
  "pageWaitForFunction R p ms = perform (WaitForFunction p ms) (page_waitForFunction R p ms)"

definition pageCookies :: "'w runtime \<Rightarrow> ('w, cookie list) action" where
  "pageCookies R = perform Cookies (page_cookies R)"

definition pageScreenshot :: "'w runtime \<Rightarrow> ('w, image) action" where
  "pageScreenshot R = perform Screenshot (page_screenshot R)"

text \<open>\<open>await page.waitForNavigation({... timeout: ms}).catch(() => null)\<close>.\<close>

definition settleNavigation :: "'w runtime \<Rightarrow> nat \<Rightarrow> ('w, unit option) action" where
  "settleNavigation R ms = bindM (pageWaitForNavigation R ms) (\<lambda>p. awaitP R (catch_null p))"

text \<open>\<open>await page.waitForSelector(sel, {timeout: ms})\<close>.\<close>

definition awaitSelector :: "'w runtime \<Rightarrow> string \<Rightarrow> nat \<Rightarrow> ('w, unit) action" where
  "awaitSelector R sel ms = bindM (pageWaitForSelector R sel ms) (\<lambda>p. awaitP R p)"

section \<open>ensureLoggedIn\<close>

text \<open>
  \<open>ensureLoggedIn(page, env, loginUrl, cookieKey, expectedRedirectUrl = null)\<close> stands
  twice in \<open>src/index.js\<close>, once per worker (lines 54 to 226, the Stagehand worker, and
  lines 390 to 561, the Puppeteer worker). Apart from comments and blank lines the two
  texts differ in one statement, the handler of the \<open>try\<close> around \<open>Promise.race\<close>: the
  first worker logs there, the second does nothing. The model follows the text block by
  block and takes the worker as a parameter where the texts differ.
\<close>

datatype worker = Stagehand | Puppeteer

text \<open>How a block ends: it runs to its end, or it executes \<open>return v\<close>.\<close>

datatype 'a completion = Normal | Return 'a

definition userSelector :: "env \<Rightarrow> string" where
  "userSelector e =
     or_default (LOGIN_USER_SELECTOR e)
       ''input[name=\"email\"], input[name=\"username\"], #username''"

definition passSelector :: "env \<Rightarrow> string" where
  "passSelector e = or_default (LOGIN_PASS_SELECTOR e) ''input[name=\"password\"], #password''"

definition submitSelector :: "env \<Rightarrow> string" where
  "submitSelector e =
     or_default (LOGIN_SUBMIT_SELECTOR e)
       (''.auth0-lock-submit, button[type=\"submit\"], #'' @ [CHR 0x5C] @ ''31 -submit'')"

definition successSelector :: "env \<Rightarrow> string option" where
  "successSelector e = or_else (LOGIN_SUCCESS_SELECTOR e) None"

subsection \<open>Restoring a stored session (lines 57 to 86 and 392 to 419)\<close>

text \<open>
  The result tells whether the function returned from inside the block (the stored
  session is valid). Every exception of the block is caught by its handler.
\<close>

definition sessionValid :: "'w runtime \<Rightarrow> env \<Rightarrow> ('w, bool) action" where
  "sessionValid R e =
     (case LOGIN_SUCCESS_SELECTOR e of
        Some (c # cs) \<Rightarrow>
          bindM (pageQuery R (c # cs)) (\<lambda>found.
            if found then
              seqM (logM e ''info'' ''ensureLoggedIn: session appears valid via LOGIN_SUCCESS_SELECTOR''
                      (Some [(''selector'', JStr (c # cs))]))
                (retM True)
            else retM False)
      | _ \<Rightarrow>
          bindM (pageQuery R ''.profile-avatar'') (\<lambda>found.
            if found then
              seqM (logM e ''info'' ''ensureLoggedIn: session appears valid via .profile-avatar'' None)
                (retM True)
            else retM False))"

definition restoreBody :: "'w runtime \<Rightarrow> env \<Rightarrow> string \<Rightarrow> string \<Rightarrow> ('w, bool) action" where
  "restoreBody R e loginUrl cookieKey =
     bindM (kvGet R cookieKey) (\<lambda>saved.
       case saved of
         Some (c # cs) \<Rightarrow>
           seqM (logM e ''debug'' ''ensureLoggedIn: found saved cookies''
                   (Some [(''cookieKey'', JStr cookieKey)]))
          (bindM (jsonParse R (c # cs)) (\<lambda>cookies.
             case cookies of
               PCookies (k # ks) \<Rightarrow>
                 seqM (pageSetCookie R (k # ks))
                (seqM (logM e ''debug'' ''ensureLoggedIn: set cookies on page''
                         (Some [(''count'', js_len (k # ks))]))
                (seqM (pageGoto R loginUrl True)
                (seqM (logM e ''debug'' ''ensureLoggedIn: navigated to loginUrl to validate session''
                         (Some [(''loginUrl'', JStr loginUrl)]))
                (sessionValid R e))))
             | PCookies [] \<Rightarrow> retM False
             | PNoLength \<Rightarrow> retM False
             | PUnspreadable \<Rightarrow> throwM (Error ''cookies is not iterable'')))
       | _ \<Rightarrow> retM False)"

definition restoreSession :: "'w runtime \<Rightarrow> env \<Rightarrow> string \<Rightarrow> string \<Rightarrow> ('w, bool) action" where
  "restoreSession R e loginUrl cookieKey =
     tryCatch (restoreBody R e loginUrl cookieKey)
       (\<lambda>err.
          seqM (logM e ''warn'' ''ensureLoggedIn: cookie restore failed, will attempt fresh login''
                  (error_meta err))
            (retM False))"

subsection \<open>Opening the login page and typing the credentials (lines 88 to 135)\<close>

text \<open>The first \<open>page.goto\<close> of the fresh login stands outside every \<open>try\<close>.\<close>

definition openLoginPage :: "'w runtime \<Rightarrow> env \<Rightarrow> string \<Rightarrow> ('w, unit) action" where
  "openLoginPage R e loginUrl =
     seqM (logM e ''info'' ''ensureLoggedIn: navigating to login page''
             (Some [(''loginUrl'', JStr loginUrl)]))
    (seqM (pageGoto R loginUrl True)
    (seqM (tryCatch (awaitSelector R ''.auth0-lock-container'' 5000) (\<lambda>err. retM ()))
          (tryCatch (awaitSelector R (userSelector e) 15000)
             (\<lambda>err. warnM [''username selector not found within timeout:'', userSelector e]))))"

definition typeUsername :: "'w runtime \<Rightarrow> env \<Rightarrow> ('w, unit) action" where
  "typeUsername R e =
     tryCatch
       (bindM (pageQuery R (userSelector e)) (\<lambda>userEl.
          if userEl then
            seqM (logM e ''debug'' ''ensureLoggedIn: typing username''
                    (Some [(''userSelector'', JStr (userSelector e))]))
              (pageType R (userSelector e) (LOGIN_USER e))
          else
            logM e ''warn'' ''ensureLoggedIn: username selector not found''
              (Some [(''userSelector'', JStr (userSelector e))])))
       (\<lambda>err. logM e ''error'' ''ensureLoggedIn: failed to type username'' (error_meta err))"

definition typePassword :: "'w runtime \<Rightarrow> env \<Rightarrow> ('w, unit) action" where
  "typePassword R e =
     tryCatch
       (bindM (pageQuery R (passSelector e)) (\<lambda>passEl.
          if passEl then
            seqM (logM e ''debug'' ''ensureLoggedIn: typing password''
                    (Some [(''passSelector'', JStr (passSelector e))]))
              (pageType R (passSelector e) (LOGIN_PASS e))
          else
            logM e ''warn'' ''ensureLoggedIn: password selector not found''
              (Some [(''passSelector'', JStr (passSelector e))])))
       (\<lambda>err. logM e ''error'' ''ensureLoggedIn: failed to type password'' (error_meta err))"

subsection \<open>The watchers and the submit click (lines 137 to 147)\<close>

text \<open>
  \<open>navPromise\<close> and \<open>successPromise\<close>. Without a success selector the second is
  \<open>Promise.resolve(null)\<close>, settled when it is made.
\<close>

definition armWatchers ::
  "'w runtime \<Rightarrow> env \<Rightarrow> ('w, unit option promise \<times> unit option promise) action" where
  "armWatchers R e =
     bindM (pageWaitForNavigation R 15000) (\<lambda>nav.
     bindM (case successSelector e of
              Some (c # cs) \<Rightarrow>
                bindM (pageWaitForSelector R (c # cs) 15000) (\<lambda>p. retM (catch_null p))
            | _ \<Rightarrow> readM (\<lambda>w. Promise (now R w) (Inr None)))
       (\<lambda>success. retM (catch_null nav, success)))"

definition clickSubmit :: "'w runtime \<Rightarrow> env \<Rightarrow> ('w, unit) action" where
  "clickSubmit R e =
     tryCatch
       (seqM (logM e ''debug'' ''ensureLoggedIn: attempting to click submit''
                (Some [(''submitSelector'', JStr (submitSelector e))]))
          (bindM (swallow (pageClick R (submitSelector e))) (\<lambda>_. retM ())))
       (\<lambda>err. logM e ''warn'' ''ensureLoggedIn: click submit failed'' (error_meta err))"

subsection \<open>The scan of the frames for POST forms (lines 149 to 186 and 484 to 520)\<close>

text \<open>
  \<open>looksLikeCallback\<close> is
  \<open>action && (action.indexOf('callback') !== -1 ||
     (expectedRedirectUrl && action.indexOf(expectedRedirectUrl) !== -1))\<close>,
  and the form is submitted under \<open>looksLikeCallback || !expectedRedirectUrl\<close>.
\<close>

definition looksLikeCallback :: "string option \<Rightarrow> string option \<Rightarrow> bool" where
  "looksLikeCallback action expectedRedirectUrl =
     (case action of
        Some (c # cs) \<Rightarrow>
          indexOf (c # cs) ''callback'' \<noteq> - 1 \<or>
          (case expectedRedirectUrl of
             Some (d # ds) \<Rightarrow> indexOf (c # cs) (d # ds) \<noteq> - 1
           | _ \<Rightarrow> False)
      | _ \<Rightarrow> False)"

definition shouldSubmit :: "string option \<Rightarrow> string option \<Rightarrow> bool" where
  "shouldSubmit action expectedRedirectUrl =
     (looksLikeCallback action expectedRedirectUrl \<or> \<not> truthy_str expectedRedirectUrl)"

text \<open>
  The body of the inner loop \<open>for (const f of postForms)\<close>, a \<open>try\<close> block of its
  own: the result is the value that \<open>submitted\<close> has after it.
\<close>

definition tryForm ::
  "'w runtime \<Rightarrow> env \<Rightarrow> string option \<Rightarrow> frame \<Rightarrow> form \<Rightarrow> ('w, bool) action" where
  "tryForm R e expectedRedirectUrl fr f =
     tryCatch
       (bindM (orNull (frameAction R fr f)) (\<lambda>action.
        bindM (readM (frame_url R fr)) (\<lambda>frameUrl.
        seqM (logM e ''debug'' ''ensureLoggedIn: post form action''
                (Some [(''action'', js_str action), (''frame'', JStr frameUrl)]))
          (if shouldSubmit action expectedRedirectUrl then
             seqM (logM e ''info'' ''ensureLoggedIn: submitting post form in frame''
                     (Some [(''action'', js_str action), (''frame'', JStr frameUrl)]))
            (seqM (swallow (frameSubmit R fr f))
            (seqM (settleNavigation R 30000)
            (bindM (readM (page_url R)) (\<lambda>url.
             seqM (logM e ''info'' ''ensureLoggedIn: post form submitted and navigation complete''
                     (Some [(''url'', JStr url)]))
               (retM True)))))
           else retM False))))
       (\<lambda>err.
          seqM (logM e ''debug'' ''ensureLoggedIn: error submitting a post form'' (error_meta err))
            (retM False))"

text \<open>The inner loop: it is left by \<open>break\<close> at the first submitted form.\<close>

primrec scanForms ::
  "'w runtime \<Rightarrow> env \<Rightarrow> string option \<Rightarrow> frame \<Rightarrow> form list \<Rightarrow> ('w, bool) action" where
  "scanForms R e expectedRedirectUrl fr [] = retM False"
| "scanForms R e expectedRedirectUrl fr (f # fs) =
     bindM (tryForm R e expectedRedirectUrl fr f)
       (\<lambda>submitted. if submitted then retM True else scanForms R e expectedRedirectUrl fr fs)"

text \<open>
  The body of the outer loop \<open>for (const frame of frames)\<close> up to its test
  \<open>if (submitted) break\<close>.
\<close>

definition tryFrame ::
  "'w runtime \<Rightarrow> env \<Rightarrow> string option \<Rightarrow> frame \<Rightarrow> ('w, bool) action" where
  "tryFrame R e expectedRedirectUrl fr =
     tryCatch
       (bindM (frameQueryAll R fr ''form[method=\"post\"]'') (\<lambda>postForms.
          if postForms = [] then retM False
          else
            bindM (readM (frame_url R fr)) (\<lambda>frameUrl.
            seqM (logM e ''debug'' ''ensureLoggedIn: found post forms in frame''
                    (Some [(''frame'', JStr frameUrl), (''count'', js_len postForms)]))
              (scanForms R e expectedRedirectUrl fr postForms))))
       (\<lambda>err.
          bindM (readM (frame_url R fr)) (\<lambda>frameUrl.
          seqM (logM e ''debug'' ''ensureLoggedIn: error scanning frame for post forms''
                  (Some [(''frame'', JStr frameUrl), (''error'', JStr (error_message err))]))
            (retM False)))"

primrec scanFrames ::
  "'w runtime \<Rightarrow> env \<Rightarrow> string option \<Rightarrow> frame list \<Rightarrow> ('w, bool) action" where
  "scanFrames R e expectedRedirectUrl [] = retM False"
| "scanFrames R e expectedRedirectUrl (fr # frs) =
     bindM (tryFrame R e expectedRedirectUrl fr)
       (\<lambda>submitted. if submitted then retM True else scanFrames R e expectedRedirectUrl frs)"

definition relayPostForms :: "'w runtime \<Rightarrow> env \<Rightarrow> string option \<Rightarrow> ('w, unit) action" where
  "relayPostForms R e expectedRedirectUrl =
     tryCatch
       (bindM (pageFrames R) (\<lambda>frames.
        bindM (scanFrames R e expectedRedirectUrl frames) (\<lambda>submitted.
          if submitted then retM ()
          else logM e ''debug'' ''ensureLoggedIn: no post forms submitted'' None)))
       (\<lambda>err. logM e ''debug'' ''ensureLoggedIn: error checking for post forms'' (error_meta err))"

subsection \<open>The race of the watchers (lines 188 to 193 and 522 to 527)\<close>

definition raceHandler :: "worker \<Rightarrow> env \<Rightarrow> error \<Rightarrow> ('w, unit) action" where
  "raceHandler v e err =
     (case v of
        Stagehand \<Rightarrow> logM e ''debug'' ''ensureLoggedIn: race condition resolved, continuing'' None
      | Puppeteer \<Rightarrow> retM ())"

definition raceWatchers ::
  "worker \<Rightarrow> 'w runtime \<Rightarrow> env \<Rightarrow> unit option promise \<Rightarrow> unit option promise \<Rightarrow> ('w, unit) action" where
  "raceWatchers v R e navPromise successPromise =
     tryCatch
       (bindM (readM (now R)) (\<lambda>t0.
        bindM (awaitP R (promise_race t0 navPromise successPromise)) (\<lambda>_. retM ())))
       (raceHandler v e)"

subsection \<open>Waiting for the destination (lines 195 to 216 and 529 to 551)\<close>

definition awaitDestination ::
  "'w runtime \<Rightarrow> env \<Rightarrow> string \<Rightarrow> string option \<Rightarrow> ('w, string option completion) action" where
  "awaitDestination R e loginUrl expectedRedirectUrl =
     tryCatch
       (case expectedRedirectUrl of
          Some (c # cs) \<Rightarrow>
            seqM (logM e ''info'' ''ensureLoggedIn: waiting for expected redirect URL''
                    (Some [(''expectedRedirectUrl'', JStr (c # cs))]))
           (seqM (pageWaitForFunction R (ExpectedReached (c # cs)) 30000)
           (seqM (settleNavigation R 15000)
           (bindM (readM (page_url R)) (\<lambda>url.
            seqM (logM e ''info'' ''ensureLoggedIn: expected redirect reached''
                    (Some [(''url'', JStr url)]))
              (bindM (readM (page_url R)) (\<lambda>finalUrl. retM (Return (Some finalUrl))))))))
        | _ \<Rightarrow>
            seqM (logM e ''debug'' ''ensureLoggedIn: waiting for navigation away from loginUrl''
                    (Some [(''loginUrl'', JStr loginUrl)]))
           (seqM (swallow (pageWaitForFunction R (LeftLogin loginUrl) 30000))
           (seqM (settleNavigation R 15000)
           (bindM (readM (page_url R)) (\<lambda>url.
            seqM (logM e ''info'' ''ensureLoggedIn: navigation after login complete''
                    (Some [(''url'', JStr url)]))
              (retM Normal))))))
       (\<lambda>err.
          seqM (logM e ''warn'' ''ensureLoggedIn: redirect wait failed or timed out'' (error_meta err))
            (retM Normal))"

subsection \<open>Saving the cookies (lines 218 to 225 and 553 to 560)\<close>

definition cookieTtl :: nat where
  "cookieTtl = 60 * 60 * 24 * 7"

definition saveCookies :: "'w runtime \<Rightarrow> env \<Rightarrow> string \<Rightarrow> ('w, unit) action" where
  "saveCookies R e cookieKey =
     tryCatch
       (bindM (pageCookies R) (\<lambda>cookies.
        seqM (kvPut R cookieKey (json_stringify R cookies) cookieTtl)
          (logM e ''info'' ''ensureLoggedIn: saved cookies to KV''
             (Some [(''cookieKey'', JStr cookieKey), (''count'', js_len cookies)]))))
       (\<lambda>err. logM e ''warn'' ''ensureLoggedIn: failed to save cookies'' (error_meta err))"

subsection \<open>The whole function\<close>

text \<open>
  The fresh login is everything after the restore block: the statements up to the race
  (\<open>submitLogin\<close>), then the wait for the destination and the saving of the cookies. Its
  result is what \<open>ensureLoggedIn\<close> returns: \<open>Some url\<close> for \<open>return page.url()\<close>, \<open>None\<close>
  for \<open>undefined\<close>.
\<close>

definition submitLogin ::
  "worker \<Rightarrow> 'w runtime \<Rightarrow> env \<Rightarrow> string \<Rightarrow> string option \<Rightarrow> ('w, unit) action" where
  "submitLogin v R e loginUrl expectedRedirectUrl =
     seqM (openLoginPage R e loginUrl)
    (seqM (typeUsername R e)
    (seqM (typePassword R e)
    (bindM (armWatchers R e) (\<lambda>(navPromise, successPromise).
     seqM (clickSubmit R e)
    (seqM (relayPostForms R e expectedRedirectUrl)
          (raceWatchers v R e navPromise successPromise))))))"

definition freshLogin ::
  "worker \<Rightarrow> 'w runtime \<Rightarrow> env \<Rightarrow> string \<Rightarrow> string \<Rightarrow> string option \<Rightarrow> ('w, string option) action" where
  "freshLogin v R e loginUrl cookieKey expectedRedirectUrl =
     seqM (submitLogin v R e loginUrl expectedRedirectUrl)
    (bindM (awaitDestination R e loginUrl expectedRedirectUrl) (\<lambda>c.
       case c of
         Return url \<Rightarrow> retM url
       | Normal \<Rightarrow> seqM (saveCookies R e cookieKey) (retM None)))"

definition ensureLoggedIn ::
  "worker \<Rightarrow> 'w runtime \<Rightarrow> env \<Rightarrow> string \<Rightarrow> string \<Rightarrow> string option \<Rightarrow> ('w, string option) action" where
  "ensureLoggedIn v R e loginUrl cookieKey expectedRedirectUrl =
     seqM (logM e ''debug'' ''ensureLoggedIn: attempting to restore cookies''
             (Some [(''cookieKey'', JStr cookieKey)]))
    (bindM (restoreSession R e loginUrl cookieKey) (\<lambda>valid.
       if valid then retM None
       else freshLogin v R e loginUrl cookieKey expectedRedirectUrl))"

section \<open>The fetch handlers\<close>

text \<open>
  A request, as far as the handlers read it: \<open>request.url\<close>, \<open>request.method\<close> and the
  query parameters \<open>url\<close>, \<open>login\<close>, \<open>action\<close> and \<open>nocache\<close>
  (\<open>searchParams.get\<close> gives \<open>null\<close> for a missing one). The screenshot options
  (\<open>type\<close>, \<open>fullPage\<close>, \<open>width\<close>, \<open>height\<close>, \<open>quality\<close>) only reach
  \<open>page.screenshot\<close> and are left to the runtime.
\<close>

record request =
  req_url :: string
  req_method :: string
  q_url :: "string option"
  q_login :: "string option"
  q_action :: "string option"
  q_nocache :: "string option"

datatype body = Text string | Bytes image

record response =
  status :: nat
  content :: body

definition textResponse :: "nat \<Rightarrow> string \<Rightarrow> response" where
  "textResponse st txt = \<lparr>status = st, content = Text txt\<rparr>"

definition imageResponse :: "image \<Rightarrow> response" where
  "imageResponse img = \<lparr>status = 200, content = Bytes img\<rparr>"

definition cookiesKey :: "string \<Rightarrow> string" where
  "cookiesKey loginUrl = ''cookies:'' @ loginUrl"

text \<open>\<open>action === 'clear-cookies'\<close>: the same block in both workers.\<close>

definition clearCookies :: "'w runtime \<Rightarrow> string option \<Rightarrow> ('w, response) action" where
  "clearCookies R loginUrl =
     (case loginUrl of
        Some (c # cs) \<Rightarrow>
          tryCatch
            (seqM (kvDelete R (cookiesKey (c # cs)))
               (retM (textResponse 200 (''Cleared cookies for '' @ c # cs))))
            (\<lambda>err. retM (textResponse 500 (''Failed to clear cookies: '' @ error_message err)))
      | _ \<Rightarrow> retM (textResponse 400 ''Missing login URL for clearing cookies''))"

text \<open>\<open>!env.LOGIN_USER || !env.LOGIN_PASS\<close>.\<close>

definition credentialsMissing :: "env \<Rightarrow> bool" where
  "credentialsMissing e = (\<not> truthy_str (LOGIN_USER e) \<or> \<not> truthy_str (LOGIN_PASS e))"

text \<open>\<open>const screenshotUrl = finalAfterLogin || url\<close>.\<close>

definition screenshotUrl :: "string option \<Rightarrow> string \<Rightarrow> string" where
  "screenshotUrl finalAfterLogin url = or_default finalAfterLogin url"

text \<open>
  The login-only branch (\<open>else if (loginUrl)\<close>, lines 315 to 337 and 634 to 650): in both
  workers the browser is started, the credentials are checked, and the handle that was
  just made is closed before the 400 response.
\<close>

definition loginOnly :: "worker \<Rightarrow> 'w runtime \<Rightarrow> env \<Rightarrow> string \<Rightarrow> ('w, response) action" where
  "loginOnly v R e loginUrl =
     seqM (browserLaunch R)
       (if credentialsMissing e then
          seqM (browserClose R)
            (retM (textResponse 400 ''Missing LOGIN_USER / LOGIN_PASS in environment''))
        else
          seqM (ensureLoggedIn v R e loginUrl (cookiesKey loginUrl) None)
         (bindM (pageScreenshot R) (\<lambda>imgAfterLogin.
          seqM (browserClose R)
            (retM (imageResponse imgAfterLogin)))))"

definition helpResponse :: response where
  "helpResponse =
     textResponse 200
       ''Please add an ?url=https://example.com/ parameter or set TARGET_URL in your environment''"

subsection \<open>The Stagehand worker (lines 228 to 343)\<close>

text \<open>
  The block under \<open>if (img === null)\<close>. Its result is \<open>Inl\<close> for a response returned
  from inside the block and \<open>Inr\<close> for the screenshot. In the credential check this
  worker writes \<open>await browser.close()\<close>, but its module declares no \<open>browser\<close>: it
  imports \<open>Stagehand\<close> and \<open>endpointURLString\<close> and its handle is \<open>stagehand\<close>.
  Evaluating the identifier raises a ReferenceError, so the statement after it is never
  reached.
\<close>

definition undeclaredBrowserClose :: "('w, unit) action" where
  "undeclaredBrowserClose = throwM (Error ''browser is not defined'')"

definition freshScreenshot_stagehand ::
  "'w runtime \<Rightarrow> env \<Rightarrow> string \<Rightarrow> string option \<Rightarrow> ('w, response + image) action" where
  "freshScreenshot_stagehand R e url loginUrl =
     seqM (logM e ''info'' ''fetch: initializing Stagehand for fresh screenshot'' None)
    (seqM (browserLaunch R)
    (seqM (logM e ''debug'' ''fetch: Stagehand initialized, page ready'' None)
    (bindM
       (case loginUrl of
          Some (c # cs) \<Rightarrow>
            if credentialsMissing e then
              seqM undeclaredBrowserClose
                (retM (Return (textResponse 400 ''Missing LOGIN_USER / LOGIN_PASS in environment'')))
            else
              bindM (ensureLoggedIn Stagehand R e (c # cs) (cookiesKey (c # cs)) (Some url))
                (\<lambda>finalAfterLogin.
              seqM (logM e ''debug'' ''fetch: navigating to final screenshot URL''
                      (Some [(''screenshotUrl'', JStr (screenshotUrl finalAfterLogin url))]))
             (seqM (swallow (pageGoto R (screenshotUrl finalAfterLogin url) True))
                (retM Normal)))
        | _ \<Rightarrow> seqM (pageGoto R url False) (retM Normal))
       (\<lambda>c. case c of
          Return resp \<Rightarrow> retM (Inl resp)
        | Normal \<Rightarrow>
            seqM (logM e ''debug'' ''fetch: taking screenshot'' (Some [(''url'', JStr url)]))
           (bindM (pageScreenshot R) (\<lambda>img.
            seqM (logM e ''debug'' ''fetch: screenshot taken'' (Some [(''size'', js_len img)]))
           (seqM (logM e ''info'' ''fetch: screenshot caching disabled'' None)
           (seqM (browserClose R)
           (seqM (logM e ''info'' ''fetch: Stagehand closed'' None)
              (retM (Inr img)))))))))))"

definition fetch_stagehand :: "'w runtime \<Rightarrow> env \<Rightarrow> request \<Rightarrow> ('w, response) action" where
  "fetch_stagehand R e req =
     seqM (logM e ''info'' ''fetch: incoming request''
             (Some [(''url'', JStr (req_url req)), (''method'', JStr (req_method req))]))
       (if q_action req = Some ''clear-cookies''
        then clearCookies R (or_else (q_login req) (LOGIN_URL e))
        else
          (case or_else (q_url req) (TARGET_URL e) of
             Some (c # cs) \<Rightarrow>
               bindM (newURL R (c # cs)) (\<lambda>url.
               bindM (if truthy_str (q_nocache req) then retM None
                      else
                        seqM (logM e ''debug'' ''fetch: checking KV for cached screenshot''
                                (Some [(''url'', JStr url)]))
                          (kvGetBuffer R url)) (\<lambda>cached.
               bindM (case cached of
                        None \<Rightarrow>
                          freshScreenshot_stagehand R e url (or_else (q_login req) (LOGIN_URL e))
                      | Some img \<Rightarrow> retM (Inr img)) (\<lambda>r.
                 case r of
                   Inl resp \<Rightarrow> retM resp
                 | Inr img \<Rightarrow>
                     seqM (logM e ''info'' ''fetch: returning screenshot''
                             (Some [(''url'', JStr url), (''size'', js_len img)]))
                       (retM (imageResponse img)))))
           | _ \<Rightarrow>
               (case or_else (q_login req) (LOGIN_URL e) of
                  Some (c # cs) \<Rightarrow> loginOnly Stagehand R e (c # cs)
                | _ \<Rightarrow> retM helpResponse)))"

subsection \<open>The Puppeteer worker (lines 563 to 655)\<close>

definition screenshotTtl :: nat where
  "screenshotTtl = 60 * 60 * 24"

definition freshScreenshot_puppeteer ::
  "'w runtime \<Rightarrow> env \<Rightarrow> string \<Rightarrow> string option \<Rightarrow> ('w, response + image) action" where
  "freshScreenshot_puppeteer R e url loginUrl =
     seqM (logM e ''info'' ''fetch: launching browser'' None)
    (seqM (browserLaunch R)
    (bindM
       (case loginUrl of
          Some (c # cs) \<Rightarrow>
            if credentialsMissing e then
              seqM (browserClose R)
                (retM (Return (textResponse 400 ''Missing LOGIN_USER / LOGIN_PASS in environment'')))
            else
              bindM (ensureLoggedIn Puppeteer R e (c # cs) (cookiesKey (c # cs)) (Some url))
                (\<lambda>finalAfterLogin.
              seqM (logM e ''debug'' ''fetch: navigating to final screenshot URL''
                      (Some [(''screenshotUrl'', JStr (screenshotUrl finalAfterLogin url))]))
             (seqM (swallow (pageGoto R (screenshotUrl finalAfterLogin url) True))
                (retM Normal)))
        | _ \<Rightarrow> seqM (pageGoto R url False) (retM Normal))
       (\<lambda>c. case c of
          Return resp \<Rightarrow> retM (Inl resp)
        | Normal \<Rightarrow>
            bindM (pageScreenshot R) (\<lambda>img.
            seqM (tryCatch
                    (seqM (kvPutBuffer R url img screenshotTtl)
                       (logM e ''info'' ''fetch: cached screenshot to KV'' (Some [(''url'', JStr url)])))
                    (\<lambda>err. logM e ''warn'' ''fetch: failed to cache screenshot'' (error_meta err)))
           (seqM (browserClose R)
           (seqM (logM e ''info'' ''fetch: browser closed'' None)
              (retM (Inr img))))))))"

definition fetch_puppeteer :: "'w runtime \<Rightarrow> env \<Rightarrow> request \<Rightarrow> ('w, response) action" where
  "fetch_puppeteer R e req =
     seqM (logM e ''info'' ''fetch: incoming request''
             (Some [(''url'', JStr (req_url req)), (''method'', JStr (req_method req))]))
       (if q_action req = Some ''clear-cookies''
        then clearCookies R (or_else (q_login req) (LOGIN_URL e))
        else
          (case or_else (q_url req) (TARGET_URL e) of
             Some (c # cs) \<Rightarrow>
               bindM (newURL R (c # cs)) (\<lambda>url.
               bindM (seqM (logM e ''debug'' ''fetch: checking KV for cached screenshot''
                              (Some [(''url'', JStr url)]))
                        (kvGetBuffer R url)) (\<lambda>cached.
               bindM (case cached of
                        None \<Rightarrow>
                          freshScreenshot_puppeteer R e url (or_else (q_login req) (LOGIN_URL e))
                      | Some img \<Rightarrow> retM (Inr img)) (\<lambda>r.
                 case r of
                   Inl resp \<Rightarrow> retM resp
                 | Inr img \<Rightarrow>
                     seqM (logM e ''info'' ''fetch: returning screenshot''
                             (Some [(''url'', JStr url), (''size'', js_len img)]))
                       (retM (imageResponse img)))))
           | _ \<Rightarrow>
               (case or_else (q_login req) (LOGIN_URL e) of
                  Some (c # cs) \<Rightarrow> loginOnly Puppeteer R e (c # cs)
                | _ \<Rightarrow> retM helpResponse)))"

section \<open>Reading a run\<close>

definition result_of :: "(error + 'a) \<times> 'w \<times> event list \<Rightarrow> error + 'a" where
  "result_of r = fst r"

definition state_of :: "(error + 'a) \<times> 'w \<times> event list \<Rightarrow> 'w" where
  "state_of r = fst (snd r)"

definition trace_of :: "(error + 'a) \<times> 'w \<times> event list \<Rightarrow> event list" where
  "trace_of r = snd (snd r)"

text \<open>The operations of a trace, without what was printed.\<close>

fun ops_of :: "event list \<Rightarrow> op list" where
  "ops_of [] = []"
| "ops_of (Op c # evs) = c # ops_of evs"
| "ops_of (Console l # evs) = ops_of evs"
| "ops_of (ConsoleWarn a # evs) = ops_of evs"

text \<open>Capturing the cookies of the page and writing to the store.\<close>

fun is_cookie_save :: "op \<Rightarrow> bool" where
  "is_cookie_save Cookies = True"
| "is_cookie_save (KvPut k v ttl) = True"
| "is_cookie_save c = False"

fun is_submit :: "op \<Rightarrow> bool" where
  "is_submit (FrameSubmit fr f) = True"
| "is_submit c = False"

fun is_click :: "op \<Rightarrow> bool" where
  "is_click (Click sel) = True"
| "is_click c = False"

text \<open>
  The operations with which \<open>ensureLoggedIn\<close> drives a login (credential typing, the
  submit click, the relay of a form) or writes to the store.
\<close>

fun is_login_action :: "op \<Rightarrow> bool" where
  "is_login_action (Type sel txt) = True"
| "is_login_action (Click sel) = True"
| "is_login_action (FrameSubmit fr f) = True"
| "is_login_action (KvPut k v ttl) = True"
| "is_login_action c = False"

text \<open>
  How the operations of a scan end with respect to a form (or none): without any
  submission, or with the submission of that form and the wait for its navigation as
  the last two operations and no submission before.
\<close>

definition ends_with_submit :: "op list \<Rightarrow> (frame \<times> form) option \<Rightarrow> bool" where
  "ends_with_submit ops m =
     (case m of
        None \<Rightarrow> filter is_submit ops = []
      | Some (fr, f) \<Rightarrow>
          (\<exists>pre. ops = pre @ [FrameSubmit fr f, WaitForNavigation 30000] \<and>
                 filter is_submit pre = []))"

text \<open>
  The ways in which the restore block of \<open>ensureLoggedIn\<close> can fail to find a valid
  session, stated on the runtime, with the operations \<open>pre\<close> made until then and the state
  \<open>wr\<close> that they leave: the lookup in the store throws; nothing is stored (\<open>null\<close> or the
  empty text); the stored text cannot be parsed, or it parses to an empty array, to a
  value without a length or to a value that cannot be spread; \<open>page.setCookie\<close> throws;
  the navigation to the login URL throws; the query of the success indicator throws or
  finds nothing.
\<close>

abbreviation restore_fails ::
  "'w runtime \<Rightarrow> env \<Rightarrow> string \<Rightarrow> string \<Rightarrow> 'w \<Rightarrow> op list \<Rightarrow> 'w \<Rightarrow> bool" where
  "restore_fails R e loginUrl cookieKey w pre wr \<equiv>
     (\<exists>err. kv_get R cookieKey w = (Inl err, wr) \<and> pre = [KvGet cookieKey]) \<or>
     (kv_get R cookieKey w = (Inr None, wr) \<and> pre = [KvGet cookieKey]) \<or>
     (kv_get R cookieKey w = (Inr (Some []), wr) \<and> pre = [KvGet cookieKey]) \<or>
     (\<exists>s. kv_get R cookieKey w = (Inr (Some s), wr) \<and> s \<noteq> [] \<and> pre = [KvGet cookieKey] \<and>
        ((\<exists>err. json_parse R s = Inl err) \<or> json_parse R s = Inr (PCookies []) \<or>
         json_parse R s = Inr PNoLength \<or> json_parse R s = Inr PUnspreadable)) \<or>
     (\<exists>s cs w1. kv_get R cookieKey w = (Inr (Some s), w1) \<and> s \<noteq> [] \<and>
        json_parse R s = Inr (PCookies cs) \<and> cs \<noteq> [] \<and>
        (\<exists>err. page_setCookie R cs w1 = (Inl err, wr)) \<and>
        pre = [KvGet cookieKey, SetCookie cs]) \<or>
     (\<exists>s cs w1 w2. kv_get R cookieKey w = (Inr (Some s), w1) \<and> s \<noteq> [] \<and>
        json_parse R s = Inr (PCookies cs) \<and> cs \<noteq> [] \<and>
        page_setCookie R cs w1 = (Inr (), w2) \<and>
        (\<exists>err. page_goto R loginUrl True w2 = (Inl err, wr)) \<and>
        pre = [KvGet cookieKey, SetCookie cs, Goto loginUrl True]) \<or>
     (\<exists>s cs w1 w2 w3. kv_get R cookieKey w = (Inr (Some s), w1) \<and> s \<noteq> [] \<and>
        json_parse R s = Inr (PCookies cs) \<and> cs \<noteq> [] \<and>
        page_setCookie R cs w1 = (Inr (), w2) \<and>
        page_goto R loginUrl True w2 = (Inr (), w3) \<and>
        ((\<exists>err. page_query R (or_default (LOGIN_SUCCESS_SELECTOR e) ''.profile-avatar'') w3 =
                  (Inl err, wr)) \<or>
         page_query R (or_default (LOGIN_SUCCESS_SELECTOR e) ''.profile-avatar'') w3 =
           (Inr False, wr)) \<and>
        pre = [KvGet cookieKey, SetCookie cs, Goto loginUrl True,
               Query (or_default (LOGIN_SUCCESS_SELECTOR e) ''.profile-avatar'')])"

text \<open>
  Two properties of an action over all states: it never throws, and each of its
  operations satisfies a given predicate.
\<close>

definition total :: "('w, 'a) action \<Rightarrow> bool" where
  "total m = (\<forall>w. \<exists>x w1 t. m w = (Inr x, w1, t))"

definition only :: "(op \<Rightarrow> bool) \<Rightarrow> ('w, 'a) action \<Rightarrow> bool" where
  "only P m = (\<forall>w. list_all P (ops_of (trace_of (m w))))"

section \<open>A small runtime for concrete runs\<close>

text \<open>
  A runtime over the state (current URL, clock). Its parameters are the text stored under
  every key (\<open>None\<close>: nothing stored), whether the page shows \<open>.profile-avatar\<close>, and the
  frames with their POST forms and the action of each form (\<open>Inl\<close>: the frame cannot be
  queried). The submit click leads to \<open>https://ex.com/app\<close>; the Lock container never
  appears.
\<close>

type_synonym demo_state = "string \<times> nat"

type_synonym demo_frames = "(frame \<times> (error + (form \<times> string option) list)) list"

definition demoForms :: "demo_frames \<Rightarrow> frame \<Rightarrow> error + form list" where
  "demoForms cfg fr =
     (case map_of cfg fr of
        None \<Rightarrow> Inl (Error ''detached frame'')
      | Some (Inl err) \<Rightarrow> Inl err
      | Some (Inr fs) \<Rightarrow> Inr (map fst fs))"

definition demoAction :: "demo_frames \<Rightarrow> frame \<Rightarrow> form \<Rightarrow> string option" where
  "demoAction cfg fr f =
     (case map_of cfg fr of
        Some (Inr fs) \<Rightarrow> (case map_of fs f of Some a \<Rightarrow> a | None \<Rightarrow> None)
      | _ \<Rightarrow> None)"

definition demoParse :: "string \<Rightarrow> error + parsed" where
  "demoParse s =
     (if s = ''[]'' then Inr (PCookies [])
      else if s = ''[sid]'' then Inr (PCookies [Cookie ''sid'' ''1''])
      else Inl (Error ''Unexpected token''))"

definition demoRuntime :: "string option \<Rightarrow> bool \<Rightarrow> demo_frames \<Rightarrow> demo_state runtime" where
  "demoRuntime stored avatar cfg =
     \<lparr>now = snd,
      run_until = (\<lambda>t (h, c). (h, max t c)),
      kv_get = (\<lambda>k w. (Inr stored, w)),
      kv_put = (\<lambda>k v ttl w. (Inr (), w)),
      kv_delete = (\<lambda>k w. (Inr (), w)),
      kv_get_buffer = (\<lambda>k w. (Inr None, w)),
      kv_put_buffer = (\<lambda>k v ttl w. (Inr (), w)),
      json_parse = demoParse,
      json_stringify = (\<lambda>cs. if cs = [] then ''[]'' else ''[sid]''),
      url_normalize = Inr,
      browser_launch = (\<lambda>w. (Inr (), w)),
      browser_close = (\<lambda>w. (Inr (), w)),
      page_setCookie = (\<lambda>cs w. (Inr (), w)),
      page_goto = (\<lambda>u idle (h, c). (Inr (), (u, c + 1))),
      page_query = (\<lambda>sel w. (Inr (if sel = ''.profile-avatar'' then avatar else True), w)),
      page_waitForSelector =
        (\<lambda>sel ms (h, c).
           (if sel = ''.auth0-lock-container''
            then Promise (c + ms) (Inl (Error ''waiting for selector failed: timeout''))
            else Promise (c + 1) (Inr ()), (h, c))),
      page_type = (\<lambda>sel txt w. (Inr (), w)),
      page_waitForNavigation = (\<lambda>ms (h, c). (Promise (c + 2) (Inr ()), (h, c))),
      page_click = (\<lambda>sel (h, c). (Inr (), (''https://ex.com/app'', c + 1))),
      page_frames = (\<lambda>w. (Inr (map fst cfg), w)),
      frame_queryAll = (\<lambda>fr sel w. (demoForms cfg fr, w)),
      frame_action = (\<lambda>fr f w. (Inr (demoAction cfg fr f), w)),
      frame_submit = (\<lambda>fr f w. (Inr (), w)),
      frame_url = (\<lambda>fr w. ''https://idp.example/relay''),
      page_url = fst,
      page_waitForFunction =
        (\<lambda>p ms (h, c).
           if holds_at p h then (Inr (), (h, c))
           else (Inl (Error ''waiting for function failed: timeout''), (h, c + ms))),
      page_cookies = (\<lambda>w. (Inr [Cookie ''sid'' ''1''], w)),
      page_screenshot = (\<lambda>w. (Inr ''jpeg'', w))\<rparr>"

definition demoEnv :: env where
  "demoEnv =
     \<lparr>DEBUG = JUndefined,
      LOGIN_USER = Some ''alice'',
      LOGIN_PASS = Some ''hunter2'',
      LOGIN_USER_SELECTOR = None,
      LOGIN_PASS_SELECTOR = None,
      LOGIN_SUBMIT_SELECTOR = None,
      LOGIN_SUCCESS_SELECTOR = None,
      TARGET_URL = None,
      LOGIN_URL = None\<rparr>"

definition demoStart :: demo_state where
  "demoStart = (''about:blank'', 0)"


datatype fault = LookupFails | SetCookieFails | GotoFails | ProbeFails | NoNetwork

definition demoFaulty :: "fault \<Rightarrow> demo_state runtime" where
  "demoFaulty ft =
     (demoRuntime (Some ''[sid]'') False [])
       \<lparr>kv_get :=
          (\<lambda>k w. if ft = LookupFails then (Inl (Error ''KV GET failed''), w)
                 else (Inr (Some ''[sid]''), w)),
        page_setCookie :=
          (\<lambda>cs w. if ft = SetCookieFails then (Inl (Error ''Protocol error''), w)
                  else (Inr (), w)),
        page_goto :=
          (\<lambda>u idle (h, c).
             if ft = NoNetwork \<or> (ft = GotoFails \<and> c = 0)
             then (Inl (Error ''net::ERR_ABORTED''), (h, c + 1))
             else (Inr (), (u, c + 1))),
        page_query :=
          (\<lambda>sel w.
             if sel = ''.profile-avatar''
             then (if ft = ProbeFails then (Inl (Error ''Execution context was destroyed''), w)
                   else (Inr False, w))
             else (Inr True, w))\<rparr>"

definition demoRequest :: request where
  "demoRequest =
     \<lparr>req_url = ''https://worker.example/?login=https://ex.com/login&url=https://ex.com/app'',
      req_method = ''GET'',
      q_url = Some ''https://ex.com/app'',
      q_login = Some ''https://ex.com/login'',
      q_action = None,
      q_nocache = None\<rparr>"

section \<open>Logging\<close>

lemma upper_char_not_p: "upper_char c \<noteq> CHR ''p''"
  by (simp add: upper_char_def)

lemma toUpperCase_not_password: "toUpperCase key \<noteq> ''password''"
  by (cases key) (simp_all add: toUpperCase_def upper_char_not_p)

lemma toUpperCase_not_passwd: "toUpperCase key \<noteq> ''passwd''"
  by (cases key) (simp_all add: toUpperCase_def upper_char_not_p)

text \<open>
  What \<open>maskSecrets\<close> does: since the key is upper-cased before the lookup, the two
  lower-case entries of \<open>secretKeys\<close> never match, and exactly the keys that spell
  \<open>LOGIN_PASS\<close> or \<open>LOGIN_USER\<close> in some letter case are masked.
\<close>

lemma maskSecrets_effective:
  "maskSecrets key v =
     (if key \<noteq> [] \<and> (toUpperCase key = ''LOGIN_PASS'' \<or> toUpperCase key = ''LOGIN_USER'')
      then JStr ''****'' else v)"
  by (simp add: maskSecrets_def secretKeys_def toUpperCase_not_password toUpperCase_not_passwd)

lemma maskSecrets_examples:
  "maskSecrets ''login_pass'' (JStr ''hunter2'') = JStr ''****''"
  "maskSecrets ''LOGIN_USER'' (JStr ''alice'') = JStr ''****''"
  "maskSecrets ''password'' (JStr ''hunter2'') = JStr ''hunter2''"
  "maskSecrets ''PASSWD'' (JStr ''hunter2'') = JStr ''hunter2''"
  by (simp_all add: maskSecrets_effective toUpperCase_def upper_char_def)

text \<open>
  C2 (the code departs from the claim). The claim: for every log call and every metadata
  field with a secret-designating name, the credential names and their aliases
  \<open>password\<close> and \<open>passwd\<close> in any letter case, the output shows the redaction marker
  and never the value. In the code a field whose name spells \<open>password\<close> or \<open>passwd\<close>
  in any letter case is printed with its value as it is: whenever logging is on, the
  line that \<open>log\<close> prints for such a field holds the JSON text of the value.
\<close>

theorem log_leaks_password_alias:
  assumes "toUpperCase key = ''PASSWORD'' \<or> toUpperCase key = ''PASSWD''"
    and "debug_enabled e"
  shows "log ts e lvl msg (Some [(key, JStr secret)]) =
     Some (''['' @ ts @ ''] ['' @ lvl @ ''] '' @ msg @ '' {'' @
           json_string key @ '':'' @ json_string secret @ ''}'')"
  using assms
  by (auto simp add: log_def log_entry_def render_def mask_meta_def maskSecrets_effective
      json_object_def)

theorem log_leaks_password_alias_witness:
  "(toUpperCase ''password'' = ''PASSWORD'' \<or> toUpperCase ''password'' = ''PASSWD'') \<and>
   debug_enabled (Some demoEnv) \<and>
   log ''2025-01-01T00:00:00.000Z'' (Some demoEnv) ''debug'' ''login''
       (Some [(''password'', JStr ''hunter2'')]) =
     Some ''[2025-01-01T00:00:00.000Z] [debug] login {\"password\":\"hunter2\"}''"
proof -
  have u: "toUpperCase ''password'' = ''PASSWORD'' \<or> toUpperCase ''password'' = ''PASSWD''"
    by (simp add: toUpperCase_def upper_char_def)
  have d: "debug_enabled (Some demoEnv)"
    by (simp add: debug_enabled_def demoEnv_def)
  show ?thesis
    using u d log_leaks_password_alias [OF u d, of "''2025-01-01T00:00:00.000Z''" "''debug''"
        "''login''" "''hunter2''"]
    by (simp add: json_string_def json_escape_def)
qed

lemma log_examples:
  "log ''T'' None ''info'' ''m'' None = Some ''[T] [info] m''"
  "log ''T'' (Some (demoEnv\<lparr>DEBUG := JBool False\<rparr>)) ''info'' ''m'' None = Some ''[T] [info] m''"
  "log ''T'' (Some (demoEnv\<lparr>DEBUG := JNum 0\<rparr>)) ''info'' ''m'' None = Some ''[T] [info] m''"
  "log ''T'' (Some (demoEnv\<lparr>DEBUG := JStr ''FALSE''\<rparr>)) ''info'' ''m'' None = Some ''[T] [info] m''"
  "log ''T'' (Some (demoEnv\<lparr>DEBUG := JStr ''0''\<rparr>)) ''info'' ''m'' None = None"
  "log ''T'' (Some (demoEnv\<lparr>DEBUG := JStr ''false''\<rparr>)) ''info'' ''m'' None = None"
  by (simp_all add: log_def log_entry_def debug_enabled_def render_def demoEnv_def)

text \<open>
  C10. A call of \<open>log\<close> prints nothing exactly when \<open>env\<close> is present and \<open>env.DEBUG\<close>
  is the string \<open>false\<close> or the string \<open>0\<close>. In every other case, a missing \<open>env\<close> and
  an unset \<open>DEBUG\<close> included, it prints one line, and the line holds the message.
\<close>

theorem log_emitted_unless_debug_off:
  "log ts e lvl msg m =
     (if (\<exists>ev. e = Some ev \<and> (DEBUG ev = JStr ''false'' \<or> DEBUG ev = JStr ''0''))
      then None
      else Some (render ts (LogLine lvl msg (map_option mask_meta m))))
   \<and> sublist msg (render ts (LogLine lvl msg (map_option mask_meta m)))"
proof -
  have a: "sublist msg ((''['' @ ts @ ''] ['' @ lvl @ ''] '') @ msg @ x)" for x
    by (rule sublist_appendI)
  have b: "sublist msg (render ts (LogLine lvl msg mm))" for mm
    using a [of "[]"] a [of "'' '' @ json_object (the mm)"]
    by (cases mm) (simp_all add: render_def)
  show ?thesis
    using b by (auto simp add: log_def log_entry_def debug_enabled_def split: option.splits)
qed

section \<open>Runs of actions\<close>

lemmas act_defs = retM_def throwM_def bindM_def seqM_def tryCatch_def swallow_def orNull_def
  perform_def start_def awaitP_def readM_def logM_def warnM_def
lemmas call_defs = kvGet_def kvPut_def kvDelete_def kvGetBuffer_def kvPutBuffer_def
  browserLaunch_def browserClose_def pageSetCookie_def pageGoto_def pageQuery_def
  pageWaitForSelector_def pageType_def pageWaitForNavigation_def pageClick_def pageFrames_def
  frameQueryAll_def frameAction_def frameSubmit_def pageWaitForFunction_def pageCookies_def
  pageScreenshot_def
lemmas run_defs = result_of_def state_of_def trace_of_def

lemma ops_of_append [simp]: "ops_of (a @ b) = ops_of a @ ops_of b"
  by (induction a rule: ops_of.induct) simp_all

lemma ops_of_printed [simp]: "ops_of (printed e lvl msg m) = []"
  by (simp add: printed_def split: option.splits)

subsection \<open>Runs of composed actions\<close>

lemma bindM_run:
  "m w = (Inr x, w1, t1) \<Longrightarrow> bindM m f w = (case f x w1 of (r, w2, t2) \<Rightarrow> (r, w2, t1 @ t2))"
  by (simp add: bindM_def)

lemma bindM_throws: "m w = (Inl err, w1, t1) \<Longrightarrow> bindM m f w = (Inl err, w1, t1)"
  by (simp add: bindM_def)

lemma seqM_run:
  "m w = (Inr x, w1, t1) \<Longrightarrow> seqM m k w = (case k w1 of (r, w2, t2) \<Rightarrow> (r, w2, t1 @ t2))"
  by (simp add: seqM_def bindM_def)

lemma bindM_returns:
  assumes "bindM m f w = (Inr y, w2, tr)"
  obtains x w1 t1 t2 where "m w = (Inr x, w1, t1)" "f x w1 = (Inr y, w2, t2)" "tr = t1 @ t2"
  using assms by (auto simp add: bindM_def split: prod.splits sum.splits)

lemma seqM_returns:
  assumes "seqM m k w = (Inr y, w2, tr)"
  obtains x w1 t1 t2 where "m w = (Inr x, w1, t1)" "k w1 = (Inr y, w2, t2)" "tr = t1 @ t2"
  using assms unfolding seqM_def by (rule bindM_returns)

subsection \<open>only\<close>

lemma onlyD: "only P m \<Longrightarrow> m w = (r, w1, t) \<Longrightarrow> list_all P (ops_of t)"
  by (auto simp add: only_def trace_of_def dest: spec [of _ w])

lemma only_retM: "only P (retM x)" by (simp add: only_def retM_def trace_of_def)
lemma only_throwM: "only P (throwM x)" by (simp add: only_def throwM_def trace_of_def)
lemma only_readM: "only P (readM x)" by (simp add: only_def readM_def trace_of_def)
lemma only_logM: "only P (logM e l m x)" by (simp add: only_def logM_def trace_of_def)
lemma only_warnM: "only P (warnM a)" by (simp add: only_def warnM_def trace_of_def)
lemma only_awaitP: "only P (awaitP R p)" by (simp add: only_def awaitP_def trace_of_def)
lemma only_jsonParse: "only P (jsonParse R s)" by (simp add: only_def jsonParse_def trace_of_def)
lemma only_newURL: "only P (newURL R s)" by (simp add: only_def newURL_def trace_of_def)
lemma only_perform: "P c \<Longrightarrow> only P (perform c f)"
  by (simp add: only_def perform_def trace_of_def split: prod.splits)
lemma only_start: "P c \<Longrightarrow> only P (start c f)"
  by (simp add: only_def start_def trace_of_def split: prod.splits)

lemma only_bindM:
  assumes "only P m" and "\<And>x. only P (f x)"
  shows "only P (bindM m f)"
proof -
  have "list_all P (ops_of (trace_of (bindM m f w)))" for w
  proof (cases "m w")
    case (fields r w1 t1)
    have m: "list_all P (ops_of t1)" using assms(1) fields by (rule onlyD)
    show ?thesis
    proof (cases r)
      case (Inl err)
      then show ?thesis using fields m by (simp add: bindM_def trace_of_def)
    next
      case (Inr x)
      obtain r2 w2 t2 where f: "f x w1 = (r2, w2, t2)" by (cases "f x w1")
      have "list_all P (ops_of t2)" using assms(2) f by (rule onlyD)
      then show ?thesis using fields Inr f m by (simp add: bindM_def trace_of_def)
    qed
  qed
  then show ?thesis by (simp add: only_def)
qed

lemma only_seqM: "only P m \<Longrightarrow> only P k \<Longrightarrow> only P (seqM m k)"
  by (simp add: seqM_def only_bindM)

lemma only_tryCatch:
  assumes "only P m" and "\<And>err. only P (h err)"
  shows "only P (tryCatch m h)"
proof -
  have "list_all P (ops_of (trace_of (tryCatch m h w)))" for w
  proof (cases "m w")
    case (fields r w1 t1)
    have m: "list_all P (ops_of t1)" using assms(1) fields by (rule onlyD)
    show ?thesis
    proof (cases r)
      case (Inr x)
      then show ?thesis using fields m by (simp add: tryCatch_def trace_of_def)
    next
      case (Inl err)
      obtain r2 w2 t2 where h: "h err w1 = (r2, w2, t2)" by (cases "h err w1")
      have "list_all P (ops_of t2)" using assms(2) h by (rule onlyD)
      then show ?thesis using fields Inl h m by (simp add: tryCatch_def trace_of_def)
    qed
  qed
  then show ?thesis by (simp add: only_def)
qed

lemma only_swallow: "only P m \<Longrightarrow> only P (swallow m)"
  by (simp add: swallow_def only_tryCatch only_bindM only_retM)

lemma only_orNull: "only P m \<Longrightarrow> only P (orNull m)"
  by (simp add: orNull_def only_tryCatch only_retM)

lemmas only_intros = only_retM only_throwM only_readM only_logM only_warnM only_awaitP
  only_jsonParse only_newURL only_perform only_start only_bindM only_seqM only_tryCatch
  only_swallow only_orNull

lemma only_settleNavigation: "P (WaitForNavigation ms) \<Longrightarrow> only P (settleNavigation R ms)"
  unfolding settleNavigation_def pageWaitForNavigation_def by (intro only_intros) simp_all

lemma only_awaitSelector: "P (WaitForSelector sel ms) \<Longrightarrow> only P (awaitSelector R sel ms)"
  unfolding awaitSelector_def pageWaitForSelector_def by (intro only_intros) simp_all

lemma only_restoreSession: "only (\<lambda>c. \<not> is_cookie_save c) (restoreSession R e l k)"
  unfolding restoreSession_def restoreBody_def sessionValid_def call_defs
  by (auto intro!: only_intros split: option.splits list.splits parsed.splits)

lemma only_scanForms: "only (\<lambda>c. \<not> is_cookie_save c) (scanForms R e x fr fs)"
  by (induction fs)
    (auto intro!: only_intros only_settleNavigation
      simp add: tryForm_def frameAction_def frameSubmit_def)

lemma only_scanFrames: "only (\<lambda>c. \<not> is_cookie_save c) (scanFrames R e x frs)"
  by (induction frs)
    (auto intro!: only_intros only_scanForms simp add: tryFrame_def frameQueryAll_def)

lemma only_submitLogin: "only (\<lambda>c. \<not> is_cookie_save c) (submitLogin v R e l x)"
  unfolding submitLogin_def openLoginPage_def typeUsername_def typePassword_def armWatchers_def
    clickSubmit_def relayPostForms_def raceWatchers_def raceHandler_def call_defs
  by (auto intro!: only_intros only_awaitSelector only_scanFrames
      split: option.splits list.splits worker.splits)

lemma only_awaitDestination: "only (\<lambda>c. \<not> is_cookie_save c) (awaitDestination R e l x)"
  unfolding awaitDestination_def call_defs
  by (auto intro!: only_intros only_settleNavigation split: option.splits list.splits)

subsection \<open>Actions that never throw\<close>

lemma totalD: "total m \<Longrightarrow> \<exists>x w1 t. m w = (Inr x, w1, t)"
  by (simp add: total_def)

lemma total_retM: "total (retM x)" by (simp add: total_def retM_def)
lemma total_readM: "total (readM x)" by (simp add: total_def readM_def)
lemma total_logM: "total (logM e l m x)" by (simp add: total_def logM_def)
lemma total_warnM: "total (warnM a)" by (simp add: total_def warnM_def)
lemma total_start: "total (start c f)" by (simp add: total_def start_def split: prod.splits)
lemma total_awaitP: "\<exists>x. outcome p = Inr x \<Longrightarrow> total (awaitP R p)"
  by (auto simp add: total_def awaitP_def)

lemma total_bindM:
  assumes "total m" and "\<And>x. total (f x)"
  shows "total (bindM m f)"
proof -
  have "\<exists>y w2 t. bindM m f w = (Inr y, w2, t)" for w
  proof -
    obtain x w1 t1 where m: "m w = (Inr x, w1, t1)" using totalD [OF assms(1)] by blast
    obtain y w2 t2 where f: "f x w1 = (Inr y, w2, t2)" using totalD [OF assms(2)] by blast
    show ?thesis using m f by (simp add: bindM_def)
  qed
  then show ?thesis by (simp add: total_def)
qed

lemma total_seqM: "total m \<Longrightarrow> total k \<Longrightarrow> total (seqM m k)"
  by (simp add: seqM_def total_bindM)

lemma total_tryCatch:
  assumes "\<And>err. total (h err)"
  shows "total (tryCatch m h)"
proof -
  have "\<exists>y w2 t. tryCatch m h w = (Inr y, w2, t)" for w
  proof (cases "m w")
    case (fields r w1 t1)
    show ?thesis
    proof (cases r)
      case (Inr x)
      then show ?thesis using fields by (simp add: tryCatch_def)
    next
      case (Inl err)
      obtain y w2 t2 where h: "h err w1 = (Inr y, w2, t2)" using totalD [OF assms] by blast
      show ?thesis using fields Inl h by (simp add: tryCatch_def)
    qed
  qed
  then show ?thesis by (simp add: total_def)
qed

lemma total_swallow: "total (swallow m)"
  by (simp add: swallow_def total_tryCatch total_retM)

lemma total_orNull: "total (orNull m)"
  by (simp add: orNull_def total_tryCatch total_retM)

lemma outcome_catch_null: "\<exists>x. outcome (catch_null p) = Inr x"
  by (simp add: catch_null_def split: sum.splits)

lemma total_settleNavigation: "total (settleNavigation R ms)"
  unfolding settleNavigation_def pageWaitForNavigation_def
  by (intro total_bindM total_start total_awaitP outcome_catch_null)

lemmas total_intros = total_retM total_readM total_logM total_warnM total_start total_bindM
  total_seqM total_tryCatch total_swallow total_orNull total_settleNavigation

lemma total_restoreSession: "total (restoreSession R e l k)"
  unfolding restoreSession_def by (intro total_intros)

lemma total_typeUsername: "total (typeUsername R e)"
  unfolding typeUsername_def by (intro total_intros)

lemma total_typePassword: "total (typePassword R e)"
  unfolding typePassword_def by (intro total_intros)

lemma total_clickSubmit: "total (clickSubmit R e)"
  unfolding clickSubmit_def by (intro total_intros)

lemma total_relayPostForms: "total (relayPostForms R e x)"
  unfolding relayPostForms_def by (intro total_intros)

lemma total_awaitDestination: "total (awaitDestination R e l x)"
  unfolding awaitDestination_def by (intro total_intros)

lemma total_saveCookies: "total (saveCookies R e k)"
  unfolding saveCookies_def by (intro total_intros)

subsection \<open>The watchers and the two workers\<close>

lemma armWatchers_run:
  "\<exists>n s w1 t a b. armWatchers R e w = (Inr (n, s), w1, t) \<and> outcome n = Inr a \<and> outcome s = Inr b \<and>
     ops_of t = WaitForNavigation 15000 #
       (case successSelector e of Some (c # cs) \<Rightarrow> [WaitForSelector (c # cs) 15000] | _ \<Rightarrow> [])"
  by (auto simp add: armWatchers_def act_defs pageWaitForNavigation_def pageWaitForSelector_def
      catch_null_def split: prod.splits option.splits list.splits sum.splits)

lemma raceWatchers_run:
  assumes "outcome n = Inr a" "outcome s = Inr b"
  shows "raceWatchers v R e n s w =
     (Inr (),
      (if min (settles_at n) (settles_at s) \<le> now R w then w
       else run_until R (min (settles_at n) (settles_at s)) w),
      [])"
  using assms
  by (auto simp add: raceWatchers_def act_defs promise_race_def Let_def max_def min_def)

lemma raceWatchers_worker:
  assumes "outcome n = Inr a" "outcome s = Inr b"
  shows "raceWatchers Stagehand R e n s = raceWatchers Puppeteer R e n s"
  by (rule ext) (simp add: raceWatchers_run [OF assms])

lemma bindM_cong_run:
  assumes "\<And>w x w1 t. m w = (Inr x, w1, t) \<Longrightarrow> f x w1 = g x w1"
  shows "bindM m f = bindM m g"
proof (rule ext)
  fix w
  show "bindM m f w = bindM m g w"
  proof (cases "m w")
    case (fields r w1 t1)
    then show ?thesis using assms by (cases r) (simp_all add: bindM_def)
  qed
qed

text \<open>
  C9. The two workers' \<open>ensureLoggedIn\<close> are equivalent: from the same state of the same
  runtime, with the same environment, login URL, cookie key and expected redirect URL, the
  two runs give the same result, the same final state and the same events in the same
  order (the operations on the page, the frames and the store, and the console lines).
  The one statement in which the texts differ, the handler of the race, is never
  executed, because neither watcher promise can be rejected.
\<close>

theorem workers_share_one_ensureLoggedIn:
  "ensureLoggedIn Stagehand R e loginUrl cookieKey expectedRedirectUrl w =
   ensureLoggedIn Puppeteer R e loginUrl cookieKey expectedRedirectUrl w"
proof -
  let ?x = expectedRedirectUrl
  have "(case ns of (navPromise, successPromise) \<Rightarrow>
           seqM (clickSubmit R e) (seqM (relayPostForms R e ?x)
             (raceWatchers Stagehand R e navPromise successPromise))) w1 =
        (case ns of (navPromise, successPromise) \<Rightarrow>
           seqM (clickSubmit R e) (seqM (relayPostForms R e ?x)
             (raceWatchers Puppeteer R e navPromise successPromise))) w1"
    if "armWatchers R e w0 = (Inr ns, w1, t)" for w0 ns w1 t
  proof -
    obtain n s w2 t2 a b where "armWatchers R e w0 = (Inr (n, s), w2, t2)"
      and o: "outcome n = Inr a" "outcome s = Inr b"
      using armWatchers_run [of R e w0] by blast
    with that have "ns = (n, s)" by simp
    with o show ?thesis by (simp add: raceWatchers_worker)
  qed
  then have "bindM (armWatchers R e) (\<lambda>(navPromise, successPromise).
           seqM (clickSubmit R e) (seqM (relayPostForms R e ?x)
             (raceWatchers Stagehand R e navPromise successPromise))) =
        bindM (armWatchers R e) (\<lambda>(navPromise, successPromise).
           seqM (clickSubmit R e) (seqM (relayPostForms R e ?x)
             (raceWatchers Puppeteer R e navPromise successPromise)))"
    by (rule bindM_cong_run)
  then have submit: "submitLogin Stagehand R e loginUrl ?x = submitLogin Puppeteer R e loginUrl ?x"
    by (simp add: submitLogin_def)
  then have fresh: "freshLogin Stagehand R e loginUrl cookieKey ?x =
      freshLogin Puppeteer R e loginUrl cookieKey ?x"
    by (simp add: freshLogin_def)
  then show ?thesis
    by (simp add: ensureLoggedIn_def cong: if_cong)
qed

section \<open>Fresh login and the saving of cookies\<close>

lemmas phase_defs = ensureLoggedIn_def freshLogin_def submitLogin_def restoreSession_def
  restoreBody_def sessionValid_def openLoginPage_def typeUsername_def typePassword_def
  armWatchers_def clickSubmit_def relayPostForms_def raceWatchers_def raceHandler_def
  awaitDestination_def saveCookies_def userSelector_def passSelector_def submitSelector_def
  successSelector_def or_default_def or_else_def
lemmas demo_defs = demoRuntime_def demoEnv_def demoStart_def demoForms_def demoAction_def
  demoParse_def
lemmas eval_defs = run_defs act_defs call_defs jsonParse_def newURL_def settleNavigation_def
  awaitSelector_def phase_defs demo_defs printed_def log_entry_def debug_enabled_def
  catch_null_def promise_race_def indexOf_def cookieTtl_def

lemma saveCookies_run:
  assumes "page_cookies R w = (Inr cookies, w1)"
  shows "ops_of (trace_of (saveCookies R e cookieKey w)) =
           [Cookies, KvPut cookieKey (json_stringify R cookies) 604800]"
  using assms
  by (simp add: saveCookies_def act_defs call_defs trace_of_def cookieTtl_def
      split: prod.splits sum.splits)

text \<open>
  C1 (the code departs from the claim). The claim: every fresh login captures the cookies
  of the page and saves them under the session key with a 7-day TTL before
  \<open>ensureLoggedIn\<close> returns, the path on which the expected destination is reached and
  the final URL is returned included. In the code that path leaves the function by
  \<open>return page.url()\<close> from inside the \<open>try\<close> of the destination wait, before the
  block that saves the cookies: whenever \<open>ensureLoggedIn\<close> returns a final URL, the run
  holds neither \<open>page.cookies()\<close> nor a \<open>put\<close> on the store. The cookies are saved
  (\<open>saveCookies_run\<close>) only when the function reaches the end of the destination block,
  that is without an expected destination or after the wait for it has failed.
\<close>

theorem final_url_returned_before_saving:
  assumes "result_of (ensureLoggedIn v R e loginUrl cookieKey x w) = Inr (Some url)"
  shows "filter is_cookie_save (ops_of (trace_of (ensureLoggedIn v R e loginUrl cookieKey x w))) = []"
proof -
  let ?P = "\<lambda>c. \<not> is_cookie_save c"
  obtain w9 tr where run: "ensureLoggedIn v R e loginUrl cookieKey x w = (Inr (Some url), w9, tr)"
    using assms by (cases "ensureLoggedIn v R e loginUrl cookieKey x w") (simp add: result_of_def)
  from run [unfolded ensureLoggedIn_def]
  obtain u0 w0 t0 ta where l: "logM e ''debug'' ''ensureLoggedIn: attempting to restore cookies''
             (Some [(''cookieKey'', JStr cookieKey)]) w = (Inr u0, w0, t0)"
    and a: "bindM (restoreSession R e loginUrl cookieKey) (\<lambda>valid.
       if valid then retM None
       else freshLogin v R e loginUrl cookieKey x) w0 = (Inr (Some url), w9, ta)"
    and tr: "tr = t0 @ ta"
    by (rule seqM_returns)
  have t0: "ops_of t0 = []" using l by (auto simp add: logM_def)
  from a obtain valid w1 t1 tb where r: "restoreSession R e loginUrl cookieKey w0 = (Inr valid, w1, t1)"
    and b: "(if valid then retM None else freshLogin v R e loginUrl cookieKey x) w1 = (Inr (Some url), w9, tb)"
    and ta: "ta = t1 @ tb"
    by (rule bindM_returns)
  have t1: "list_all ?P (ops_of t1)" using only_restoreSession r by (rule onlyD)
  have nv: "\<not> valid" using b by (auto simp add: retM_def)
  with b have "freshLogin v R e loginUrl cookieKey x w1 = (Inr (Some url), w9, tb)" by simp
  from this [unfolded freshLogin_def]
  obtain u5 w5 t5 tc where s: "submitLogin v R e loginUrl x w1 = (Inr u5, w5, t5)"
    and c: "bindM (awaitDestination R e loginUrl x) (\<lambda>c.
       case c of
         Return url \<Rightarrow> retM url
       | Normal \<Rightarrow> seqM (saveCookies R e cookieKey) (retM None)) w5 = (Inr (Some url), w9, tc)"
    and tb: "tb = t5 @ tc"
    by (rule seqM_returns)
  have t5: "list_all ?P (ops_of t5)" using only_submitLogin s by (rule onlyD)
  from c obtain cpl w6 t6 td where d: "awaitDestination R e loginUrl x w5 = (Inr cpl, w6, t6)"
    and f: "(case cpl of Return url \<Rightarrow> retM url
       | Normal \<Rightarrow> seqM (saveCookies R e cookieKey) (retM None)) w6 = (Inr (Some url), w9, td)"
    and tc: "tc = t6 @ td"
    by (rule bindM_returns)
  have t6: "list_all ?P (ops_of t6)" using only_awaitDestination d by (rule onlyD)
  have td: "td = []"
  proof (cases cpl)
    case Normal
    with f have "seqM (saveCookies R e cookieKey) (retM None) w6 = (Inr (Some url), w9, td)" by simp
    then obtain u7 w7 t7 t8 where "retM None w7 = (Inr (Some url), w9, t8)" by (rule seqM_returns)
    then show ?thesis by (simp add: retM_def)
  next
    case (Return u)
    with f show ?thesis by (auto simp add: retM_def)
  qed
  have "list_all ?P (ops_of tr)" using t0 t1 t5 t6 td by (simp add: tr ta tb tc)
  then have "filter is_cookie_save (ops_of tr) = []"
    by (induction "ops_of tr") (auto simp add: filter_empty_conv list_all_iff)
  then show ?thesis using run by (simp add: trace_of_def)
qed

theorem final_url_returned_before_saving_witness:
  "result_of (ensureLoggedIn Stagehand (demoRuntime None False []) demoEnv ''https://ex.com/login''
      ''cookies:https://ex.com/login'' (Some ''https://ex.com/app'') demoStart) =
     Inr (Some ''https://ex.com/app'') \<and>
   filter is_cookie_save (ops_of (trace_of (ensureLoggedIn Stagehand (demoRuntime None False [])
      demoEnv ''https://ex.com/login'' ''cookies:https://ex.com/login'' (Some ''https://ex.com/app'')
      demoStart))) = []"
proof -
  have h: "result_of (ensureLoggedIn Stagehand (demoRuntime None False []) demoEnv
      ''https://ex.com/login'' ''cookies:https://ex.com/login'' (Some ''https://ex.com/app'')
      demoStart) = Inr (Some ''https://ex.com/app'')"
    by (simp add: eval_defs)
  show ?thesis using h final_url_returned_before_saving [OF h] by simp
qed

section \<open>The restore block\<close>

lemma or_default_indicator:
  "or_default sel d = (case sel of Some (c # cs) \<Rightarrow> c # cs | _ \<Rightarrow> d)"
  by (simp add: or_default_def split: option.splits list.splits)

text \<open>
  C5. When a stored cookie set is found (a non-empty text that parses to a non-empty
  array), the cookies are set, the login URL is opened and the success indicator (the
  configured success selector, or \<open>.profile-avatar\<close> when none is configured) is found
  there, \<open>ensureLoggedIn\<close> returns at once with \<open>undefined\<close>: its operations are the
  lookup in the store, \<open>setCookie\<close>, the navigation and the query of the indicator, and
  nothing else. It types no credential, clicks no submit control, relays no form and
  writes nothing to the store.
\<close>

theorem valid_stored_session_returns_at_once:
  assumes "kv_get R cookieKey w = (Inr (Some saved), w1)" and "saved \<noteq> []"
    and "json_parse R saved = Inr (PCookies cookies)" and "cookies \<noteq> []"
    and "page_setCookie R cookies w1 = (Inr (), w2)"
    and "page_goto R loginUrl True w2 = (Inr (), w3)"
    and "page_query R (or_default (LOGIN_SUCCESS_SELECTOR e) ''.profile-avatar'') w3 = (Inr True, w4)"
  shows "result_of (ensureLoggedIn v R e loginUrl cookieKey x w) = Inr None \<and>
     state_of (ensureLoggedIn v R e loginUrl cookieKey x w) = w4 \<and>
     ops_of (trace_of (ensureLoggedIn v R e loginUrl cookieKey x w)) =
       [KvGet cookieKey, SetCookie cookies, Goto loginUrl True,
        Query (or_default (LOGIN_SUCCESS_SELECTOR e) ''.profile-avatar'')] \<and>
     filter is_login_action (ops_of (trace_of (ensureLoggedIn v R e loginUrl cookieKey x w))) = []"
proof -
  obtain c cs where saved: "saved = c # cs" using assms(2) by (cases saved) auto
  obtain k ks where cookies: "cookies = k # ks" using assms(4) by (cases cookies) auto
  have valid: "sessionValid R e w3 =
      (Inr True, w4, Op (Query (or_default (LOGIN_SUCCESS_SELECTOR e) ''.profile-avatar'')) #
         (case LOGIN_SUCCESS_SELECTOR e of
            Some (c # cs) \<Rightarrow> printed e ''info''
              ''ensureLoggedIn: session appears valid via LOGIN_SUCCESS_SELECTOR''
              (Some [(''selector'', JStr (c # cs))])
          | _ \<Rightarrow> printed e ''info'' ''ensureLoggedIn: session appears valid via .profile-avatar'' None))"
    using assms(7)
    by (simp add: sessionValid_def or_default_indicator act_defs pageQuery_def
        split: option.splits list.splits)
  have body: "\<exists>t. restoreBody R e loginUrl cookieKey w = (Inr True, w4, t) \<and>
      ops_of t = [KvGet cookieKey, SetCookie cookies, Goto loginUrl True,
        Query (or_default (LOGIN_SUCCESS_SELECTOR e) ''.profile-avatar'')]"
    using assms(1,3,5,6) valid
    by (simp add: restoreBody_def saved cookies act_defs kvGet_def jsonParse_def
        pageSetCookie_def pageGoto_def split: option.splits list.splits)
  then obtain t where "restoreBody R e loginUrl cookieKey w = (Inr True, w4, t)"
    and t: "ops_of t = [KvGet cookieKey, SetCookie cookies, Goto loginUrl True,
        Query (or_default (LOGIN_SUCCESS_SELECTOR e) ''.profile-avatar'')]"
    by blast
  then have "ensureLoggedIn v R e loginUrl cookieKey x w =
      (Inr None, w4, printed e ''debug'' ''ensureLoggedIn: attempting to restore cookies''
             (Some [(''cookieKey'', JStr cookieKey)]) @ t)"
    by (simp add: ensureLoggedIn_def restoreSession_def act_defs)
  then show ?thesis using t by (simp add: run_defs)
qed

theorem valid_stored_session_returns_at_once_witness:
  "result_of (ensureLoggedIn Puppeteer (demoRuntime (Some ''[sid]'') True []) demoEnv
      ''https://ex.com/login'' ''cookies:https://ex.com/login'' (Some ''https://ex.com/app'')
      demoStart) = Inr None \<and>
   ops_of (trace_of (ensureLoggedIn Puppeteer (demoRuntime (Some ''[sid]'') True []) demoEnv
      ''https://ex.com/login'' ''cookies:https://ex.com/login'' (Some ''https://ex.com/app'')
      demoStart)) =
     [KvGet ''cookies:https://ex.com/login'', SetCookie [Cookie ''sid'' ''1''],
      Goto ''https://ex.com/login'' True, Query ''.profile-avatar'']"
proof -
  let ?R = "demoRuntime (Some ''[sid]'') True []"
  have 1: "kv_get ?R ''cookies:https://ex.com/login'' demoStart = (Inr (Some ''[sid]''), demoStart)"
    by (simp add: demo_defs)
  have 2: "''[sid]'' \<noteq> []" by simp
  have 3: "json_parse ?R ''[sid]'' = Inr (PCookies [Cookie ''sid'' ''1''])"
    by (simp add: demo_defs)
  have 4: "[Cookie ''sid'' ''1''] \<noteq> []" by simp
  have 5: "page_setCookie ?R [Cookie ''sid'' ''1''] demoStart = (Inr (), demoStart)"
    by (simp add: demo_defs)
  have 6: "page_goto ?R ''https://ex.com/login'' True demoStart = (Inr (), (''https://ex.com/login'', 1))"
    by (simp add: demo_defs)
  have 7: "page_query ?R (or_default (LOGIN_SUCCESS_SELECTOR demoEnv) ''.profile-avatar'')
      (''https://ex.com/login'', 1) = (Inr True, (''https://ex.com/login'', 1))"
    by (simp add: demo_defs or_default_def)
  have 8: "or_default (LOGIN_SUCCESS_SELECTOR demoEnv) ''.profile-avatar'' = ''.profile-avatar''"
    by (simp add: demo_defs or_default_def)
  show ?thesis
    using valid_stored_session_returns_at_once [OF 1 2 3 4 5 6 7, of Puppeteer "Some ''https://ex.com/app''"]
    by (simp add: 8)
qed

lemma sessionValid_run:
  assumes "page_query R (or_default (LOGIN_SUCCESS_SELECTOR e) ''.profile-avatar'') w = (r, w1)"
  shows "\<exists>t. sessionValid R e w = (r, w1, t) \<and>
     ops_of t = [Query (or_default (LOGIN_SUCCESS_SELECTOR e) ''.profile-avatar'')]"
proof (cases "LOGIN_SUCCESS_SELECTOR e")
  case None
  with assms show ?thesis
    by (cases r) (simp_all add: sessionValid_def or_default_def act_defs pageQuery_def)
next
  case (Some s)
  show ?thesis
  proof (cases s)
    case Nil
    with Some assms show ?thesis
      by (cases r) (simp_all add: sessionValid_def or_default_def act_defs pageQuery_def)
  next
    case (Cons c cs)
    with Some assms show ?thesis
      by (cases r) (simp_all add: sessionValid_def or_default_def act_defs pageQuery_def)
  qed
qed

lemma ensureLoggedIn_after_failed_restore:
  assumes "restoreSession R e loginUrl cookieKey w = (Inr False, w1, t1)"
  shows "ensureLoggedIn v R e loginUrl cookieKey x w =
     (case freshLogin v R e loginUrl cookieKey x w1 of
        (r2, w2, t2) \<Rightarrow>
          (r2, w2, (printed e ''debug'' ''ensureLoggedIn: attempting to restore cookies''
             (Some [(''cookieKey'', JStr cookieKey)]) @ t1) @ t2))"
  using assms
  by (simp add: ensureLoggedIn_def seqM_def bindM_def logM_def split: prod.splits)

section \<open>The scan for POST forms\<close>

lemma index_from_None: "index_from s t = None \<longleftrightarrow> \<not> sublist t s"
  by (induction s) (auto simp add: sublist_Cons_right)


lemma indexOf_found: "indexOf s t \<noteq> - 1 \<longleftrightarrow> sublist t s"
  using index_from_None [of s t] by (auto simp add: indexOf_def split: option.splits)


lemma shouldSubmit_iff:
  "shouldSubmit action x \<longleftrightarrow>
     (\<exists>s. action = Some s \<and>
        (sublist ''callback'' s \<or> (\<exists>d. x = Some d \<and> d \<noteq> [] \<and> sublist d s))) \<or>
     \<not> truthy_str x"
proof (cases action)
  case None
  then show ?thesis by (simp add: shouldSubmit_def looksLikeCallback_def)
next
  case (Some s)
  show ?thesis
  proof (cases s)
    case Nil
    with Some show ?thesis by (auto simp add: shouldSubmit_def looksLikeCallback_def)
  next
    case (Cons c cs)
    with Some show ?thesis
      by (cases x) (auto simp add: shouldSubmit_def looksLikeCallback_def indexOf_found
          split: list.splits)
  qed
qed

lemma orNull_frameAction_run:
  "orNull (frameAction R fr f) w =
     (Inr (case fst (frame_action R fr f w) of Inl err \<Rightarrow> None | Inr a \<Rightarrow> a),
      snd (frame_action R fr f w), [Op (FrameAction fr f)])"
  by (cases "frame_action R fr f w")
    (simp add: orNull_def frameAction_def act_defs split: sum.splits)

lemma swallow_frameSubmit_run:
  "\<exists>y. swallow (frameSubmit R fr f) w = (Inr y, snd (frame_submit R fr f w), [Op (FrameSubmit fr f)])"
  by (cases "frame_submit R fr f w")
    (simp add: frameSubmit_def act_defs split: sum.splits)

lemma settleNavigation_run:
  "\<exists>y w1. settleNavigation R ms w = (Inr y, w1, [Op (WaitForNavigation ms)])"
  by (cases "page_waitForNavigation R ms w")
    (simp add: settleNavigation_def pageWaitForNavigation_def act_defs catch_null_def
      split: sum.splits)

lemma tryForm_run:
  "\<exists>w1 t. tryForm R e x fr f w =
       (Inr (shouldSubmit (case fst (frame_action R fr f w) of Inl err \<Rightarrow> None | Inr a \<Rightarrow> a) x),
        w1, t) \<and>
     ops_of t = FrameAction fr f #
       (if shouldSubmit (case fst (frame_action R fr f w) of Inl err \<Rightarrow> None | Inr a \<Rightarrow> a) x
        then [FrameSubmit fr f, WaitForNavigation 30000] else [])"
proof -
  let ?a = "case fst (frame_action R fr f w) of Inl err \<Rightarrow> None | Inr a \<Rightarrow> a"
  let ?w1 = "snd (frame_action R fr f w)"
  show ?thesis
  proof (cases "shouldSubmit ?a x")
    case False
    then show ?thesis
      by (simp add: tryForm_def tryCatch_def bindM_def seqM_def orNull_frameAction_run
          readM_def logM_def retM_def)
  next
    case True
    obtain y where s: "swallow (frameSubmit R fr f) ?w1 =
        (Inr y, snd (frame_submit R fr f ?w1), [Op (FrameSubmit fr f)])"
      using swallow_frameSubmit_run [of R fr f "?w1"] by auto
    obtain z w3 where n: "settleNavigation R 30000 (snd (frame_submit R fr f ?w1)) =
        (Inr z, w3, [Op (WaitForNavigation 30000)])"
      using settleNavigation_run [of R 30000 "snd (frame_submit R fr f ?w1)"] by auto
    show ?thesis
      using True
      by (simp add: tryForm_def tryCatch_def bindM_def seqM_def orNull_frameAction_run
          readM_def logM_def retM_def s n)
  qed
qed

lemma ends_with_submit_Cons:
  "\<not> is_submit c \<Longrightarrow> ends_with_submit ops m \<Longrightarrow> ends_with_submit (c # ops) m"
proof (cases m)
  case None
  assume "\<not> is_submit c" "ends_with_submit ops m"
  with None show ?thesis by (simp add: ends_with_submit_def)
next
  case (Some p)
  assume c: "\<not> is_submit c" and e: "ends_with_submit ops m"
  obtain fr f where p: "p = (fr, f)" by (cases p)
  from e Some p obtain pre where "ops = pre @ [FrameSubmit fr f, WaitForNavigation 30000]"
    and "filter is_submit pre = []"
    by (auto simp add: ends_with_submit_def)
  with c have "c # ops = (c # pre) @ [FrameSubmit fr f, WaitForNavigation 30000] \<and>
      filter is_submit (c # pre) = []" by simp
  then show ?thesis using Some p unfolding ends_with_submit_def by (simp only: option.case prod.case) blast
qed

lemma ends_with_submit_filter:
  assumes "ends_with_submit ops m"
  shows "filter is_submit ops = (case m of None \<Rightarrow> [] | Some (fr, f) \<Rightarrow> [FrameSubmit fr f])"
  using assms by (auto simp add: ends_with_submit_def split: option.splits)

lemma ends_with_submit_last:
  assumes "ends_with_submit ops m" and "FrameSubmit fr f \<in> set ops"
  shows "\<exists>pre. ops = pre @ [FrameSubmit fr f, WaitForNavigation 30000]"
proof (cases m)
  case None
  with assms(1) have "filter is_submit ops = []" by (simp add: ends_with_submit_def)
  with assms(2) show ?thesis by (auto simp add: filter_empty_conv)
next
  case (Some p)
  obtain fr' f' where p: "p = (fr', f')" by (cases p)
  from assms(1) Some p obtain pre where o: "ops = pre @ [FrameSubmit fr' f', WaitForNavigation 30000]"
    and n: "filter is_submit pre = []"
    by (auto simp add: ends_with_submit_def)
  from n have "FrameSubmit fr f \<notin> set pre" by (auto simp add: filter_empty_conv)
  with assms(2) o have "fr = fr' \<and> f = f'" by auto
  with o show ?thesis by blast
qed

lemma find_map_Pair:
  "find (\<lambda>(a, b). Q a b) (map (Pair fr) fs) = map_option (Pair fr) (find (Q fr) fs)"
  by (induction fs) auto

lemma find_append_cases:
  "find P (xs @ ys) = (case find P xs of None \<Rightarrow> find P ys | Some x \<Rightarrow> Some x)"
  by (induction xs) auto

lemma scanForms_spec:
  assumes actions: "\<And>f s. fst (frame_action R fr f s) = action f"
  shows "\<exists>w1 t. scanForms R e x fr fs w =
        (Inr (find (\<lambda>f. shouldSubmit (case action f of Inl err \<Rightarrow> None | Inr a \<Rightarrow> a) x) fs \<noteq> None),
         w1, t) \<and>
      ends_with_submit (ops_of t)
        (map_option (Pair fr)
          (find (\<lambda>f. shouldSubmit (case action f of Inl err \<Rightarrow> None | Inr a \<Rightarrow> a) x) fs))"
proof (induction fs arbitrary: w)
  case Nil
  show ?case by (simp add: retM_def ends_with_submit_def)
next
  case (Cons f fs)
  let ?P = "\<lambda>f. shouldSubmit (case action f of Inl err \<Rightarrow> None | Inr a \<Rightarrow> a) x"
  obtain w1 t1 where run: "tryForm R e x fr f w = (Inr (?P f), w1, t1)"
    and ops: "ops_of t1 = FrameAction fr f #
       (if ?P f then [FrameSubmit fr f, WaitForNavigation 30000] else [])"
    using tryForm_run [of R e x fr f w] by (auto simp add: actions)
  show ?case
  proof (cases "?P f")
    case True
    have "[FrameAction fr f, FrameSubmit fr f, WaitForNavigation 30000] =
        [FrameAction fr f] @ [FrameSubmit fr f, WaitForNavigation 30000] \<and>
        filter is_submit [FrameAction fr f] = []" by simp
    then have "ends_with_submit [FrameAction fr f, FrameSubmit fr f, WaitForNavigation 30000]
        (Some (fr, f))"
      unfolding ends_with_submit_def by (simp only: option.case prod.case) blast
    with True run ops show ?thesis by (simp add: bindM_def retM_def)
  next
    case False
    obtain w2 t2 where rest: "scanForms R e x fr fs w1 = (Inr (find ?P fs \<noteq> None), w2, t2)"
      and e2: "ends_with_submit (ops_of t2) (map_option (Pair fr) (find ?P fs))"
      using Cons.IH [of w1] by blast
    have "ends_with_submit (FrameAction fr f # ops_of t2) (map_option (Pair fr) (find ?P fs))"
      using e2 by (intro ends_with_submit_Cons) simp_all
    with False run ops rest show ?thesis by (simp add: bindM_def)
  qed
qed

lemma tryFrame_spec:
  assumes forms: "\<And>s. fst (frame_queryAll R fr ''form[method=\"post\"]'' s) = forms"
    and actions: "\<And>f s. fst (frame_action R fr f s) = action f"
  shows "\<exists>w1 t. tryFrame R e x fr w =
        (Inr (find (\<lambda>f. shouldSubmit (case action f of Inl err \<Rightarrow> None | Inr a \<Rightarrow> a) x)
                (case forms of Inl err \<Rightarrow> [] | Inr fs \<Rightarrow> fs) \<noteq> None),
         w1, t) \<and>
      ends_with_submit (ops_of t)
        (map_option (Pair fr)
          (find (\<lambda>f. shouldSubmit (case action f of Inl err \<Rightarrow> None | Inr a \<Rightarrow> a) x)
             (case forms of Inl err \<Rightarrow> [] | Inr fs \<Rightarrow> fs)))"
proof -
  let ?P = "\<lambda>f. shouldSubmit (case action f of Inl err \<Rightarrow> None | Inr a \<Rightarrow> a) x"
  obtain r w' where q: "frame_queryAll R fr ''form[method=\"post\"]'' w = (r, w')"
    by (cases "frame_queryAll R fr ''form[method=\"post\"]'' w")
  have r: "r = forms" using forms [of w] q by simp
  show ?thesis
  proof (cases forms)
    case (Inl err)
    with q r show ?thesis
      by (simp add: tryFrame_def frameQueryAll_def perform_def tryCatch_def bindM_def seqM_def
          readM_def logM_def retM_def ends_with_submit_def)
  next
    case (Inr fs)
    show ?thesis
    proof (cases fs)
      case Nil
      with Inr q r show ?thesis
        by (simp add: tryFrame_def frameQueryAll_def perform_def tryCatch_def bindM_def
            retM_def ends_with_submit_def)
    next
      case (Cons f fs')
      obtain w1 t1 where s: "scanForms R e x fr fs w' = (Inr (find ?P fs \<noteq> None), w1, t1)"
        and e1: "ends_with_submit (ops_of t1) (map_option (Pair fr) (find ?P fs))"
        using scanForms_spec [of R fr action e x fs w', OF actions] by blast
      have "ends_with_submit (FrameQueryAll fr ''form[method=\"post\"]'' # ops_of t1)
          (map_option (Pair fr) (find ?P fs))"
        using e1 by (intro ends_with_submit_Cons) simp_all
      with Inr Cons q r s show ?thesis
        by (simp add: tryFrame_def frameQueryAll_def perform_def tryCatch_def bindM_def seqM_def
            readM_def logM_def)
    qed
  qed
qed

lemma scanFrames_spec:
  assumes forms: "\<And>fr s. fst (frame_queryAll R fr ''form[method=\"post\"]'' s) = forms fr"
    and actions: "\<And>fr f s. fst (frame_action R fr f s) = action fr f"
  shows "\<exists>w1 t. scanFrames R e x frs w =
        (Inr (find (\<lambda>(fr, f). shouldSubmit (case action fr f of Inl err \<Rightarrow> None | Inr a \<Rightarrow> a) x)
                (concat (map (\<lambda>fr. map (Pair fr) (case forms fr of Inl err \<Rightarrow> [] | Inr fs \<Rightarrow> fs)) frs))
              \<noteq> None),
         w1, t) \<and>
      ends_with_submit (ops_of t)
        (find (\<lambda>(fr, f). shouldSubmit (case action fr f of Inl err \<Rightarrow> None | Inr a \<Rightarrow> a) x)
           (concat (map (\<lambda>fr. map (Pair fr) (case forms fr of Inl err \<Rightarrow> [] | Inr fs \<Rightarrow> fs)) frs)))"
proof (induction frs arbitrary: w)
  case Nil
  show ?case by (simp add: retM_def ends_with_submit_def)
next
  case (Cons fr frs)
  let ?Q = "\<lambda>fr f. shouldSubmit (case action fr f of Inl err \<Rightarrow> None | Inr a \<Rightarrow> a) x"
  let ?fs = "case forms fr of Inl err \<Rightarrow> [] | Inr fs \<Rightarrow> fs"
  let ?rest = "concat (map (\<lambda>fr. map (Pair fr) (case forms fr of Inl err \<Rightarrow> [] | Inr fs \<Rightarrow> fs)) frs)"
  obtain w1 t1 where run: "tryFrame R e x fr w = (Inr (find (?Q fr) ?fs \<noteq> None), w1, t1)"
    and e1: "ends_with_submit (ops_of t1) (map_option (Pair fr) (find (?Q fr) ?fs))"
    using tryFrame_spec [of R fr "forms fr" "action fr" e x w, OF forms actions] by blast
  have split: "find (\<lambda>(fr, f). ?Q fr f) (map (Pair fr) ?fs @ ?rest) =
      (case find (?Q fr) ?fs of
         None \<Rightarrow> find (\<lambda>(fr, f). ?Q fr f) ?rest
       | Some f \<Rightarrow> Some (fr, f))"
    by (simp add: find_append_cases find_map_Pair split: option.splits)
  show ?case
  proof (cases "find (?Q fr) ?fs")
    case (Some f)
    with run e1 split show ?thesis by (simp add: bindM_def retM_def)
  next
    case None
    obtain w2 t2 where rest: "scanFrames R e x frs w1 =
        (Inr (find (\<lambda>(fr, f). ?Q fr f) ?rest \<noteq> None), w2, t2)"
      and e2: "ends_with_submit (ops_of t2) (find (\<lambda>(fr, f). ?Q fr f) ?rest)"
      using Cons.IH [of w1] by blast
    from e1 None have n1: "filter is_submit (ops_of t1) = []" by (simp add: ends_with_submit_def)
    have "ends_with_submit (ops_of t1 @ ops_of t2) (find (\<lambda>(fr, f). ?Q fr f) ?rest)"
    proof (cases "find (\<lambda>(fr, f). ?Q fr f) ?rest")
      case None
      with e2 n1 show ?thesis by (simp add: ends_with_submit_def)
    next
      case (Some p)
      obtain fr' f' where p: "p = (fr', f')" by (cases p)
      from e2 Some p obtain pre where "ops_of t2 = pre @ [FrameSubmit fr' f', WaitForNavigation 30000]"
        and "filter is_submit pre = []"
        by (auto simp add: ends_with_submit_def)
      with n1 have "ops_of t1 @ ops_of t2 =
          (ops_of t1 @ pre) @ [FrameSubmit fr' f', WaitForNavigation 30000] \<and>
          filter is_submit (ops_of t1 @ pre) = []" by simp
      then show ?thesis using Some p unfolding ends_with_submit_def
        by (simp only: option.case prod.case) blast
    qed
    with None run rest split show ?thesis by (simp add: bindM_def)
  qed
qed

text \<open>
  C4. The frames are taken in the order of \<open>page.frames()\<close> and the POST forms of each
  frame in the order of \<open>frame.$$\<close>; a frame whose forms cannot be listed has none. For
  every such configuration (the forms of a frame and the action of a form do not depend
  on when they are asked for), the scan submits at most one form: the first one, in
  that order, for which \<open>shouldSubmit\<close> holds, and no form when there is none. When a
  form is submitted, the submission and the wait for its navigation are the last two
  operations of the scan: no further frame is listed, no further action is read and no
  further form is submitted. \<open>shouldSubmit\<close> holds exactly when the action text contains
  \<open>callback\<close>, or contains the expected destination URL, or no expected destination
  was supplied (it is missing or empty).
\<close>

theorem relay_submits_first_matching_form_only:
  assumes frames: "page_frames R w = (Inr frs, w0)"
    and forms: "\<And>fr s. fst (frame_queryAll R fr ''form[method=\"post\"]'' s) = forms fr"
    and actions: "\<And>fr f s. fst (frame_action R fr f s) = action fr f"
  shows "filter is_submit (ops_of (trace_of (relayPostForms R e x w))) =
      (case find (\<lambda>(fr, f). shouldSubmit (case action fr f of Inl err \<Rightarrow> None | Inr a \<Rightarrow> a) x)
              (concat (map (\<lambda>fr. map (Pair fr) (case forms fr of Inl err \<Rightarrow> [] | Inr fs \<Rightarrow> fs)) frs)) of
         None \<Rightarrow> []
       | Some (fr, f) \<Rightarrow> [FrameSubmit fr f]) \<and>
    (\<forall>fr f. FrameSubmit fr f \<in> set (ops_of (trace_of (relayPostForms R e x w))) \<longrightarrow>
       (\<exists>pre. ops_of (trace_of (relayPostForms R e x w)) =
          pre @ [FrameSubmit fr f, WaitForNavigation 30000])) \<and>
    (\<forall>a. shouldSubmit a x \<longleftrightarrow>
       (\<exists>s. a = Some s \<and>
          (sublist ''callback'' s \<or> (\<exists>d. x = Some d \<and> d \<noteq> [] \<and> sublist d s))) \<or>
       \<not> truthy_str x)"
proof -
  let ?m = "find (\<lambda>(fr, f). shouldSubmit (case action fr f of Inl err \<Rightarrow> None | Inr a \<Rightarrow> a) x)
      (concat (map (\<lambda>fr. map (Pair fr) (case forms fr of Inl err \<Rightarrow> [] | Inr fs \<Rightarrow> fs)) frs))"
  obtain w1 t1 where s: "scanFrames R e x frs w0 = (Inr (?m \<noteq> None), w1, t1)"
    and e1: "ends_with_submit (ops_of t1) ?m"
    using scanFrames_spec [of R forms action e x frs w0, OF forms actions] by blast
  have "\<exists>w2 t2. relayPostForms R e x w = (Inr (), w2, t2) \<and> ops_of t2 = Frames # ops_of t1"
    using frames s
    by (simp add: relayPostForms_def pageFrames_def perform_def tryCatch_def bindM_def
        logM_def retM_def)
  then obtain w2 t2 where "relayPostForms R e x w = (Inr (), w2, t2)"
    and "ops_of t2 = Frames # ops_of t1" by blast
  moreover have "ends_with_submit (Frames # ops_of t1) ?m"
    using e1 by (intro ends_with_submit_Cons) simp_all
  ultimately have e: "ends_with_submit (ops_of (trace_of (relayPostForms R e x w))) ?m"
    by (simp add: trace_of_def)
  show ?thesis
    using ends_with_submit_filter [OF e] ends_with_submit_last [OF e] shouldSubmit_iff [of _ x]
    by blast
qed


theorem relay_submits_first_matching_form_only_witness:
  "page_frames
     (demoRuntime None False
        [(0, Inr [(0, Some ''https://ex.com/search'')]),
         (1, Inl (Error ''detached frame'')),
         (2, Inr [(0, None), (1, Some ''https://ex.com/callback''), (2, Some ''https://ex.com/app/relay'')]),
         (3, Inr [(0, Some ''https://idp.example/callback'')])])
     demoStart = (Inr [0, 1, 2, 3], demoStart) \<and>
   filter is_submit (ops_of (trace_of (relayPostForms
     (demoRuntime None False
        [(0, Inr [(0, Some ''https://ex.com/search'')]),
         (1, Inl (Error ''detached frame'')),
         (2, Inr [(0, None), (1, Some ''https://ex.com/callback''), (2, Some ''https://ex.com/app/relay'')]),
         (3, Inr [(0, Some ''https://idp.example/callback'')])])
     demoEnv (Some ''https://ex.com/app'') demoStart))) = [FrameSubmit 2 1] \<and>
   (\<exists>pre. ops_of (trace_of (relayPostForms
     (demoRuntime None False
        [(0, Inr [(0, Some ''https://ex.com/search'')]),
         (1, Inl (Error ''detached frame'')),
         (2, Inr [(0, None), (1, Some ''https://ex.com/callback''), (2, Some ''https://ex.com/app/relay'')]),
         (3, Inr [(0, Some ''https://idp.example/callback'')])])
     demoEnv (Some ''https://ex.com/app'') demoStart)) =
       pre @ [FrameSubmit 2 1, WaitForNavigation 30000])"
proof -
  let ?cfg = "[(0, Inr [(0, Some ''https://ex.com/search'')]),
         (1, Inl (Error ''detached frame'')),
         (2, Inr [(0, None), (1, Some ''https://ex.com/callback''), (2, Some ''https://ex.com/app/relay'')]),
         (3, Inr [(0, Some ''https://idp.example/callback'')])] :: demo_frames"
  let ?R = "demoRuntime None False ?cfg"
  let ?ops = "ops_of (trace_of (relayPostForms ?R demoEnv (Some ''https://ex.com/app'') demoStart))"
  have 1: "page_frames ?R demoStart = (Inr [0, 1, 2, 3], demoStart)"
    by (simp add: demoRuntime_def)
  have 2: "fst (frame_queryAll ?R fr ''form[method=\"post\"]'' s) = demoForms ?cfg fr" for fr s
    by (simp add: demoRuntime_def)
  have 3: "fst (frame_action ?R fr f s) = Inr (demoAction ?cfg fr f)" for fr f s
    by (simp add: demoRuntime_def)
  note t = relay_submits_first_matching_form_only [of ?R demoStart "[0, 1, 2, 3]" demoStart
      "demoForms ?cfg" "\<lambda>fr f. Inr (demoAction ?cfg fr f)" demoEnv "Some ''https://ex.com/app''",
      OF 1 2 3]
  have a: "filter is_submit ?ops = [FrameSubmit 2 1]"
    using t [THEN conjunct1]
    by (simp add: demoForms_def demoAction_def shouldSubmit_def looksLikeCallback_def indexOf_def)
  then have "FrameSubmit 2 1 \<in> set (filter is_submit ?ops)" by simp
  then have "FrameSubmit 2 1 \<in> set ?ops" by simp
  then have b: "\<exists>pre. ?ops = pre @ [FrameSubmit 2 1, WaitForNavigation 30000]"
    using t [THEN conjunct2, THEN conjunct1] by blast
  show ?thesis using 1 a b by (intro conjI)
qed

section \<open>The destination wait\<close>



lemma awaitDestination_timeout:
  assumes "x = Some d" and "d \<noteq> []"
    and "page_waitForFunction R (ExpectedReached d) 30000 w = (Inl err, w1)"
  shows "\<exists>t. awaitDestination R e loginUrl x w = (Inr Normal, w1, t) \<and>
     ops_of t = [WaitForFunction (ExpectedReached d) 30000]"
proof -
  obtain c cs where d: "d = c # cs" using assms(2) by (cases d) auto
  show ?thesis
    using assms(1,3)
    by (simp add: awaitDestination_def d pageWaitForFunction_def perform_def tryCatch_def
        bindM_def seqM_def readM_def logM_def retM_def)
qed








section \<open>The watchers and the race\<close>

lemma clickSubmit_run:
  "\<exists>w1 t. clickSubmit R e w = (Inr (), w1, t) \<and> ops_of t = [Click (submitSelector e)]"
  by (cases "page_click R (submitSelector e) w")
    (simp add: clickSubmit_def pageClick_def act_defs split: sum.splits)

lemma only_awaitSelector_nc: "only (\<lambda>c. \<not> is_click c) (awaitSelector R sel ms)"
  by (rule only_awaitSelector) simp

lemma only_openLoginPage: "only (\<lambda>c. \<not> is_click c) (openLoginPage R e l)"
  unfolding openLoginPage_def pageGoto_def
  by (intro only_intros only_awaitSelector_nc) simp_all

lemma only_typeUsername: "only (\<lambda>c. \<not> is_click c) (typeUsername R e)"
  unfolding typeUsername_def pageQuery_def pageType_def
  by (auto intro!: only_intros)

lemma only_typePassword: "only (\<lambda>c. \<not> is_click c) (typePassword R e)"
  unfolding typePassword_def pageQuery_def pageType_def
  by (auto intro!: only_intros)

lemma list_all_not_filter: "list_all (\<lambda>c. \<not> P c) xs \<Longrightarrow> filter P xs = []"
  by (induction xs) auto


lemma typeUsername_run:
  "\<exists>w2 t2 rest. typeUsername R e w = (Inr (), w2, t2) \<and>
     ops_of t2 = Query (userSelector e) # rest \<and> filter is_click rest = []"
proof (cases "page_query R (userSelector e) w")
  case (Pair r w1)
  show ?thesis
  proof (cases r)
    case (Inl err)
    with Pair show ?thesis
      by (simp add: typeUsername_def pageQuery_def perform_def tryCatch_def bindM_def logM_def)
  next
    case (Inr found)
    show ?thesis
    proof (cases found)
      case False
      with Pair Inr show ?thesis
        by (simp add: typeUsername_def pageQuery_def perform_def tryCatch_def bindM_def logM_def)
    next
      case True
      obtain r2 w2 where ty: "page_type R (userSelector e) (LOGIN_USER e) w1 = (r2, w2)"
        by (cases "page_type R (userSelector e) (LOGIN_USER e) w1")
      with Pair Inr True show ?thesis
        by (cases r2)
          (simp_all add: typeUsername_def pageQuery_def pageType_def perform_def tryCatch_def
            bindM_def seqM_def logM_def)
    qed
  qed
qed

lemma openLoginPage_run:
  assumes "page_goto R loginUrl True w = (Inr (), wg)"
  shows "\<exists>w1 t1. openLoginPage R e loginUrl w = (Inr (), w1, t1) \<and>
     ops_of t1 = [Goto loginUrl True, WaitForSelector ''.auth0-lock-container'' 5000,
                  WaitForSelector (userSelector e) 15000]"
proof -
  have sel: "\<exists>w2 t. tryCatch (awaitSelector R sel ms) h s = (Inr (), w2, t) \<and>
      ops_of t = [WaitForSelector sel ms]"
    if hh: "\<And>err s'. \<exists>t'. h err s' = (Inr (), s', t') \<and> ops_of t' = []"
    for sel ms s and h :: "error \<Rightarrow> ('a, unit) action"
  proof (cases "page_waitForSelector R sel ms s")
    case (Pair p s1)
    show ?thesis
    proof (cases "outcome p")
      case (Inr u)
      with Pair show ?thesis
        by (simp add: awaitSelector_def pageWaitForSelector_def start_def awaitP_def
            tryCatch_def bindM_def)
    next
      case (Inl err)
      obtain t' where "h err (if settles_at p \<le> now R s1 then s1
          else run_until R (settles_at p) s1) = (Inr (), (if settles_at p \<le> now R s1 then s1
          else run_until R (settles_at p) s1), t')" and "ops_of t' = []"
        using hh by blast
      with Pair Inl show ?thesis
        by (simp add: awaitSelector_def pageWaitForSelector_def start_def awaitP_def
            tryCatch_def bindM_def)
    qed
  qed
  obtain w2 ta where a: "tryCatch (awaitSelector R ''.auth0-lock-container'' 5000)
        (\<lambda>err. retM ()) wg = (Inr (), w2, ta)"
    and ta: "ops_of ta = [WaitForSelector ''.auth0-lock-container'' 5000]"
    using sel [of "\<lambda>err. retM ()" "''.auth0-lock-container''" 5000 wg]
    by (auto simp add: retM_def)
  obtain w3 tb where b: "tryCatch (awaitSelector R (userSelector e) 15000)
        (\<lambda>err. warnM [''username selector not found within timeout:'', userSelector e]) w2 =
        (Inr (), w3, tb)"
    and tb: "ops_of tb = [WaitForSelector (userSelector e) 15000]"
    using sel [of "\<lambda>err. warnM [''username selector not found within timeout:'', userSelector e]"
        "userSelector e" 15000 w2]
    by (auto simp add: warnM_def)
  show ?thesis
    using assms a b ta tb
    by (simp add: openLoginPage_def pageGoto_def perform_def seqM_def bindM_def logM_def)
qed

lemma openLoginPage_throws:
  assumes "page_goto R loginUrl True w = (Inl err, wg)"
  shows "\<exists>t1. openLoginPage R e loginUrl w = (Inl err, wg, t1) \<and> ops_of t1 = [Goto loginUrl True]"
  using assms
  by (simp add: openLoginPage_def pageGoto_def perform_def seqM_def bindM_def logM_def)

lemma submitLogin_chain:
  assumes "openLoginPage R e loginUrl w0 = (Inr (), w1, t1)"
  shows "\<exists>w2 t2 w3 t3 navPromise successPromise w4 t4 w5 t5 w6 t6.
      typeUsername R e w1 = (Inr (), w2, t2) \<and>
      typePassword R e w2 = (Inr (), w3, t3) \<and>
      armWatchers R e w3 = (Inr (navPromise, successPromise), w4, t4) \<and>
      ops_of t4 = WaitForNavigation 15000 #
        (case successSelector e of Some (c # cs) \<Rightarrow> [WaitForSelector (c # cs) 15000] | _ \<Rightarrow> []) \<and>
      clickSubmit R e w4 = (Inr (), w5, t5) \<and>
      ops_of t5 = [Click (submitSelector e)] \<and>
      relayPostForms R e x w5 = (Inr (), w6, t6) \<and>
      filter is_click (ops_of (t1 @ t2 @ t3)) = [] \<and>
      raceWatchers v R e navPromise successPromise w6 =
        (Inr (),
         (if min (settles_at navPromise) (settles_at successPromise) \<le> now R w6 then w6
          else run_until R (min (settles_at navPromise) (settles_at successPromise)) w6),
         []) \<and>
      submitLogin v R e loginUrl x w0 =
        (Inr (),
         (if min (settles_at navPromise) (settles_at successPromise) \<le> now R w6 then w6
          else run_until R (min (settles_at navPromise) (settles_at successPromise)) w6),
         t1 @ t2 @ t3 @ t4 @ t5 @ t6)"
proof -
  obtain u2 w2 t2 where tu: "typeUsername R e w1 = (Inr u2, w2, t2)"
    using totalD [OF total_typeUsername, of R e w1] by blast
  obtain u3 w3 t3 where tp: "typePassword R e w2 = (Inr u3, w3, t3)"
    using totalD [OF total_typePassword, of R e w2] by blast
  obtain n s w4 t4 a b where arm: "armWatchers R e w3 = (Inr (n, s), w4, t4)"
    and oa: "outcome n = Inr a" and ob: "outcome s = Inr b"
    and t4: "ops_of t4 = WaitForNavigation 15000 #
       (case successSelector e of Some (c # cs) \<Rightarrow> [WaitForSelector (c # cs) 15000] | _ \<Rightarrow> [])"
    using armWatchers_run [of R e w3] by blast
  obtain w5 t5 where cl: "clickSubmit R e w4 = (Inr (), w5, t5)"
    and t5: "ops_of t5 = [Click (submitSelector e)]"
    using clickSubmit_run [of R e w4] by blast
  obtain u6 w6 t6 where re: "relayPostForms R e x w5 = (Inr u6, w6, t6)"
    using totalD [OF total_relayPostForms, of R e x w5] by blast
  note ra = raceWatchers_run [OF oa ob, of v R e w6]
  have run: "submitLogin v R e loginUrl x w0 =
      (Inr (),
       (if min (settles_at n) (settles_at s) \<le> now R w6 then w6
        else run_until R (min (settles_at n) (settles_at s)) w6),
       t1 @ t2 @ t3 @ t4 @ t5 @ t6)"
    using assms tu tp arm cl re ra
    by (simp add: submitLogin_def seqM_def bindM_def)
  have 1: "list_all (\<lambda>c. \<not> is_click c) (ops_of t1)"
    using only_openLoginPage assms by (rule onlyD)
  have 2: "list_all (\<lambda>c. \<not> is_click c) (ops_of t2)"
    using only_typeUsername tu by (rule onlyD)
  have 3: "list_all (\<lambda>c. \<not> is_click c) (ops_of t3)"
    using only_typePassword tp by (rule onlyD)
  have pre: "filter is_click (ops_of (t1 @ t2 @ t3)) = []"
    using 1 2 3 by (simp add: list_all_not_filter)
  show ?thesis
    using tu tp arm t4 cl t5 re pre ra run by (simp del: ops_of_append)
qed



section \<open>A failed restore\<close>

lemmas restore_defs = restoreSession_def restoreBody_def act_defs kvGet_def jsonParse_def
  pageSetCookie_def pageGoto_def

lemma restore_lookup_throws:
  assumes "kv_get R cookieKey w = (Inl err, wr)"
  shows "\<exists>t. restoreSession R e loginUrl cookieKey w = (Inr False, wr, t) \<and>
     ops_of t = [KvGet cookieKey]"
  using assms by (simp add: restore_defs)

lemma restore_nothing_stored:
  assumes "kv_get R cookieKey w = (Inr None, wr) \<or> kv_get R cookieKey w = (Inr (Some []), wr)"
  shows "\<exists>t. restoreSession R e loginUrl cookieKey w = (Inr False, wr, t) \<and>
     ops_of t = [KvGet cookieKey]"
  using assms
proof
  assume "kv_get R cookieKey w = (Inr None, wr)"
  then show ?thesis by (simp add: restore_defs)
next
  assume "kv_get R cookieKey w = (Inr (Some []), wr)"
  then show ?thesis by (simp add: restore_defs)
qed

lemma restore_unusable:
  assumes "kv_get R cookieKey w = (Inr (Some s), wr)" and "s \<noteq> []"
    and "(\<exists>err. json_parse R s = Inl err) \<or> json_parse R s = Inr (PCookies []) \<or>
         json_parse R s = Inr PNoLength \<or> json_parse R s = Inr PUnspreadable"
  shows "\<exists>t. restoreSession R e loginUrl cookieKey w = (Inr False, wr, t) \<and>
     ops_of t = [KvGet cookieKey]"
proof -
  obtain c cs where s: "s = c # cs" using assms(2) by (cases s) auto
  from assms(3) consider err where "json_parse R s = Inl err"
    | "json_parse R s = Inr (PCookies [])" | "json_parse R s = Inr PNoLength"
    | "json_parse R s = Inr PUnspreadable" by blast
  then show ?thesis
  proof cases
    case 1
    with s assms(1) show ?thesis by (simp add: restore_defs)
  next
    case 2
    with s assms(1) show ?thesis by (simp add: restore_defs)
  next
    case 3
    with s assms(1) show ?thesis by (simp add: restore_defs)
  next
    case 4
    with s assms(1) show ?thesis by (simp add: restore_defs)
  qed
qed

lemma restore_setCookie_throws:
  assumes "kv_get R cookieKey w = (Inr (Some s), w1)" and "s \<noteq> []"
    and "json_parse R s = Inr (PCookies cs)" and "cs \<noteq> []"
    and "page_setCookie R cs w1 = (Inl err, wr)"
  shows "\<exists>t. restoreSession R e loginUrl cookieKey w = (Inr False, wr, t) \<and>
     ops_of t = [KvGet cookieKey, SetCookie cs]"
proof -
  obtain c s' where s: "s = c # s'" using assms(2) by (cases s) auto
  obtain k ks where "cs = k # ks" using assms(4) by (cases cs) auto
  with s assms(1,3,5) show ?thesis by (simp add: restore_defs)
qed

lemma restore_goto_throws:
  assumes "kv_get R cookieKey w = (Inr (Some s), w1)" and "s \<noteq> []"
    and "json_parse R s = Inr (PCookies cs)" and "cs \<noteq> []"
    and "page_setCookie R cs w1 = (Inr (), w2)"
    and "page_goto R loginUrl True w2 = (Inl err, wr)"
  shows "\<exists>t. restoreSession R e loginUrl cookieKey w = (Inr False, wr, t) \<and>
     ops_of t = [KvGet cookieKey, SetCookie cs, Goto loginUrl True]"
proof -
  obtain c s' where s: "s = c # s'" using assms(2) by (cases s) auto
  obtain k ks where "cs = k # ks" using assms(4) by (cases cs) auto
  with s assms(1,3,5,6) show ?thesis by (simp add: restore_defs)
qed

lemma restore_probe_fails:
  assumes "kv_get R cookieKey w = (Inr (Some s), w1)" and "s \<noteq> []"
    and "json_parse R s = Inr (PCookies cs)" and "cs \<noteq> []"
    and "page_setCookie R cs w1 = (Inr (), w2)"
    and "page_goto R loginUrl True w2 = (Inr (), w3)"
    and "(\<exists>err. page_query R (or_default (LOGIN_SUCCESS_SELECTOR e) ''.profile-avatar'') w3 =
                  (Inl err, wr)) \<or>
         page_query R (or_default (LOGIN_SUCCESS_SELECTOR e) ''.profile-avatar'') w3 =
           (Inr False, wr)"
  shows "\<exists>t. restoreSession R e loginUrl cookieKey w = (Inr False, wr, t) \<and>
     ops_of t = [KvGet cookieKey, SetCookie cs, Goto loginUrl True,
                 Query (or_default (LOGIN_SUCCESS_SELECTOR e) ''.profile-avatar'')]"
proof -
  let ?ind = "or_default (LOGIN_SUCCESS_SELECTOR e) ''.profile-avatar''"
  obtain c s' where s: "s = c # s'" using assms(2) by (cases s) auto
  obtain k ks where cs: "cs = k # ks" using assms(4) by (cases cs) auto
  from assms(7) consider err where "page_query R ?ind w3 = (Inl err, wr)"
    | "page_query R ?ind w3 = (Inr False, wr)" by blast
  then show ?thesis
  proof cases
    case 1
    obtain t where "sessionValid R e w3 = (Inl err, wr, t)" and "ops_of t = [Query ?ind]"
      using sessionValid_run [OF 1] by blast
    with s cs assms(1,3,5,6) show ?thesis by (simp add: restore_defs)
  next
    case 2
    obtain t where "sessionValid R e w3 = (Inr False, wr, t)" and "ops_of t = [Query ?ind]"
      using sessionValid_run [OF 2] by blast
    with s cs assms(1,3,5,6) show ?thesis by (simp add: restore_defs)
  qed
qed

lemma restore_fails_run:
  assumes "restore_fails R e loginUrl cookieKey w pre wr"
  shows "\<exists>t. restoreSession R e loginUrl cookieKey w = (Inr False, wr, t) \<and> ops_of t = pre"
  using assms
proof (elim disjE, goal_cases)
  case 1
  then show ?case using restore_lookup_throws [of R cookieKey w _ wr e loginUrl] by blast
next
  case 2
  then show ?case using restore_nothing_stored [of R cookieKey w wr e loginUrl] by blast
next
  case 3
  then show ?case using restore_nothing_stored [of R cookieKey w wr e loginUrl] by blast
next
  case 4
  then obtain s where "kv_get R cookieKey w = (Inr (Some s), wr)" "s \<noteq> []"
    "pre = [KvGet cookieKey]"
    "(\<exists>err. json_parse R s = Inl err) \<or> json_parse R s = Inr (PCookies []) \<or>
     json_parse R s = Inr PNoLength \<or> json_parse R s = Inr PUnspreadable"
    by (elim exE conjE)
  then show ?case using restore_unusable [of R cookieKey w s wr e loginUrl] by simp
next
  case 5
  then obtain s cs w1 err where "kv_get R cookieKey w = (Inr (Some s), w1)" "s \<noteq> []"
    "json_parse R s = Inr (PCookies cs)" "cs \<noteq> []"
    "page_setCookie R cs w1 = (Inl err, wr)" "pre = [KvGet cookieKey, SetCookie cs]"
    by (elim exE conjE)
  then show ?case using restore_setCookie_throws [of R cookieKey w s w1 cs err wr e loginUrl]
    by simp
next
  case 6
  then obtain s cs w1 w2 err where "kv_get R cookieKey w = (Inr (Some s), w1)" "s \<noteq> []"
    "json_parse R s = Inr (PCookies cs)" "cs \<noteq> []"
    "page_setCookie R cs w1 = (Inr (), w2)"
    "page_goto R loginUrl True w2 = (Inl err, wr)"
    "pre = [KvGet cookieKey, SetCookie cs, Goto loginUrl True]"
    by (elim exE conjE)
  then show ?case
    using restore_goto_throws [of R cookieKey w s w1 cs w2 loginUrl err wr e] by simp
next
  case 7
  then obtain s cs w1 w2 w3 where "kv_get R cookieKey w = (Inr (Some s), w1)" "s \<noteq> []"
    "json_parse R s = Inr (PCookies cs)" "cs \<noteq> []"
    "page_setCookie R cs w1 = (Inr (), w2)"
    "page_goto R loginUrl True w2 = (Inr (), w3)"
    "(\<exists>err. page_query R (or_default (LOGIN_SUCCESS_SELECTOR e) ''.profile-avatar'') w3 =
                  (Inl err, wr)) \<or>
         page_query R (or_default (LOGIN_SUCCESS_SELECTOR e) ''.profile-avatar'') w3 =
           (Inr False, wr)"
    "pre = [KvGet cookieKey, SetCookie cs, Goto loginUrl True,
           Query (or_default (LOGIN_SUCCESS_SELECTOR e) ''.profile-avatar'')]"
    by (elim exE conjE)
  then show ?case
    using restore_probe_fails [of R cookieKey w s w1 cs w2 loginUrl w3 e wr] by simp
qed

lemma freshLogin_driven:
  assumes "page_goto R loginUrl True w = (Inr (), wg)"
  shows "\<exists>u w9 t rest. freshLogin v R e loginUrl cookieKey x w = (Inr u, w9, t) \<and>
     ops_of t = Goto loginUrl True # WaitForSelector ''.auth0-lock-container'' 5000 #
       WaitForSelector (userSelector e) 15000 # Query (userSelector e) # rest \<and>
     WaitForNavigation 15000 \<in> set rest \<and> Click (submitSelector e) \<in> set rest"
proof -
  obtain w1 t1 where o: "openLoginPage R e loginUrl w = (Inr (), w1, t1)"
    and t1: "ops_of t1 = [Goto loginUrl True, WaitForSelector ''.auth0-lock-container'' 5000,
                  WaitForSelector (userSelector e) 15000]"
    using openLoginPage_run [OF assms] by blast
  obtain w2 t2 w3 t3 n s w4 t4 w5 t5 w6 t6 w7 where
    tu: "typeUsername R e w1 = (Inr (), w2, t2)" and
    t4: "ops_of t4 = WaitForNavigation 15000 #
        (case successSelector e of Some (c # cs) \<Rightarrow> [WaitForSelector (c # cs) 15000] | _ \<Rightarrow> [])" and
    t5: "ops_of t5 = [Click (submitSelector e)]" and
    su: "submitLogin v R e loginUrl x w = (Inr (), w7, t1 @ t2 @ t3 @ t4 @ t5 @ t6)"
    using submitLogin_chain [OF o, of x v] by blast
  obtain r2 where t2: "ops_of t2 = Query (userSelector e) # r2"
    using typeUsername_run [of R e w1] tu by auto
  obtain c w8 t8 where d: "awaitDestination R e loginUrl x w7 = (Inr c, w8, t8)"
    using totalD [OF total_awaitDestination, of R e loginUrl x w7] by blast
  obtain u9 w9 t9 where sv: "saveCookies R e cookieKey w8 = (Inr u9, w9, t9)"
    using totalD [OF total_saveCookies, of R e cookieKey w8] by blast
  have "\<exists>u w' t'. freshLogin v R e loginUrl cookieKey x w =
      (Inr u, w', (t1 @ t2 @ t3 @ t4 @ t5 @ t6) @ t')"
    using su d sv
    by (cases c) (simp_all add: freshLogin_def seqM_def bindM_def retM_def)
  then obtain u w' t' where f: "freshLogin v R e loginUrl cookieKey x w =
      (Inr u, w', (t1 @ t2 @ t3 @ t4 @ t5 @ t6) @ t')" by blast
  let ?rest = "r2 @ ops_of t3 @ ops_of t4 @ ops_of t5 @ ops_of t6 @ ops_of t'"
  have "ops_of ((t1 @ t2 @ t3 @ t4 @ t5 @ t6) @ t') =
      Goto loginUrl True # WaitForSelector ''.auth0-lock-container'' 5000 #
       WaitForSelector (userSelector e) 15000 # Query (userSelector e) # ?rest"
    using t1 t2 by simp
  moreover have "WaitForNavigation 15000 \<in> set ?rest" using t4 by simp
  moreover have "Click (submitSelector e) \<in> set ?rest" using t5 by simp
  ultimately show ?thesis using f by blast
qed

lemma freshLogin_blocked:
  assumes "page_goto R loginUrl True w = (Inl err, wg)"
  shows "\<exists>t. freshLogin v R e loginUrl cookieKey x w = (Inl err, wg, t) \<and>
     ops_of t = [Goto loginUrl True]"
proof -
  obtain t1 where "openLoginPage R e loginUrl w = (Inl err, wg, t1)"
    and "ops_of t1 = [Goto loginUrl True]"
    using openLoginPage_throws [OF assms] by blast
  then show ?thesis
    by (simp add: freshLogin_def submitLogin_def seqM_def bindM_def)
qed

text \<open>
  C6. Let the restore block fail in any of the ways of \<open>restore_fails\<close>: the lookup in
  the store throws, nothing is stored (\<open>null\<close> or the empty text), the stored text cannot
  be parsed or parses to an empty array, to a value without a length or to a value that
  cannot be spread, \<open>page.setCookie\<close> throws, the navigation to the login URL throws, or
  the query of the success indicator throws or finds nothing. Let \<open>pre\<close> be the
  operations made until then and \<open>wr\<close> the state that they leave. Then \<open>ensureLoggedIn\<close>
  makes the operations \<open>pre\<close> and goes on as the fresh login run from \<open>wr\<close>, whose result
  is its result: the error of the restore block reaches no caller. An absent and an empty
  cookie set both give \<open>pre = [KvGet cookieKey]\<close>. The fresh login is driven: when its
  navigation to the login URL succeeds, \<open>ensureLoggedIn\<close> returns a result, and after
  \<open>pre\<close> it navigates to the login URL, waits for the lock container and for the user
  field, queries the user field, and later arms the navigation watcher and clicks the
  submit control. The only error that \<open>ensureLoggedIn\<close> then throws is the one of the
  fresh login's own navigation, after the operations \<open>pre\<close> and that navigation.
\<close>

theorem failed_restore_falls_back_to_fresh_login:
  assumes "restore_fails R e loginUrl cookieKey w pre wr"
  shows
   "(\<exists>t. ops_of t = pre \<and>
       ensureLoggedIn v R e loginUrl cookieKey x w =
         (case freshLogin v R e loginUrl cookieKey x wr of
            (r2, w2, t2) \<Rightarrow> (r2, w2, t @ t2))) \<and>
    (\<forall>wg. page_goto R loginUrl True wr = (Inr (), wg) \<longrightarrow>
       (\<exists>u rest. result_of (ensureLoggedIn v R e loginUrl cookieKey x w) = Inr u \<and>
          ops_of (trace_of (ensureLoggedIn v R e loginUrl cookieKey x w)) =
            pre @ Goto loginUrl True # WaitForSelector ''.auth0-lock-container'' 5000 #
              WaitForSelector (userSelector e) 15000 # Query (userSelector e) # rest \<and>
          WaitForNavigation 15000 \<in> set rest \<and> Click (submitSelector e) \<in> set rest)) \<and>
    (\<forall>wg err2. page_goto R loginUrl True wr = (Inl err2, wg) \<longrightarrow>
       result_of (ensureLoggedIn v R e loginUrl cookieKey x w) = Inl err2 \<and>
       ops_of (trace_of (ensureLoggedIn v R e loginUrl cookieKey x w)) =
         pre @ [Goto loginUrl True])"
proof -
  obtain t1 where r: "restoreSession R e loginUrl cookieKey w = (Inr False, wr, t1)"
    and t1: "ops_of t1 = pre"
    using restore_fails_run [OF assms] by blast
  let ?t = "printed e ''debug'' ''ensureLoggedIn: attempting to restore cookies''
             (Some [(''cookieKey'', JStr cookieKey)]) @ t1"
  note run = ensureLoggedIn_after_failed_restore [OF r, of v x]
  have t: "ops_of ?t = pre" using t1 by simp
  have a: "\<exists>t. ops_of t = pre \<and>
       ensureLoggedIn v R e loginUrl cookieKey x w =
         (case freshLogin v R e loginUrl cookieKey x wr of
            (r2, w2, t2) \<Rightarrow> (r2, w2, t @ t2))"
    using run t by blast
  have b: "\<exists>u rest. result_of (ensureLoggedIn v R e loginUrl cookieKey x w) = Inr u \<and>
          ops_of (trace_of (ensureLoggedIn v R e loginUrl cookieKey x w)) =
            pre @ Goto loginUrl True # WaitForSelector ''.auth0-lock-container'' 5000 #
              WaitForSelector (userSelector e) 15000 # Query (userSelector e) # rest \<and>
          WaitForNavigation 15000 \<in> set rest \<and> Click (submitSelector e) \<in> set rest"
    if g: "page_goto R loginUrl True wr = (Inr (), wg)" for wg
  proof -
    obtain u w9 t2 rest where f: "freshLogin v R e loginUrl cookieKey x wr = (Inr u, w9, t2)"
      and o: "ops_of t2 = Goto loginUrl True # WaitForSelector ''.auth0-lock-container'' 5000 #
         WaitForSelector (userSelector e) 15000 # Query (userSelector e) # rest"
      and m: "WaitForNavigation 15000 \<in> set rest" "Click (submitSelector e) \<in> set rest"
      using freshLogin_driven [OF g, of v e cookieKey x] by blast
    have "ensureLoggedIn v R e loginUrl cookieKey x w = (Inr u, w9, ?t @ t2)"
      using run f by simp
    then have "result_of (ensureLoggedIn v R e loginUrl cookieKey x w) = Inr u"
      and "ops_of (trace_of (ensureLoggedIn v R e loginUrl cookieKey x w)) =
            pre @ Goto loginUrl True # WaitForSelector ''.auth0-lock-container'' 5000 #
              WaitForSelector (userSelector e) 15000 # Query (userSelector e) # rest"
      using t1 o by (simp_all add: run_defs)
    with m show ?thesis by blast
  qed
  have c: "result_of (ensureLoggedIn v R e loginUrl cookieKey x w) = Inl err2 \<and>
       ops_of (trace_of (ensureLoggedIn v R e loginUrl cookieKey x w)) =
         pre @ [Goto loginUrl True]"
    if g: "page_goto R loginUrl True wr = (Inl err2, wg)" for wg err2
  proof -
    obtain t2 where f: "freshLogin v R e loginUrl cookieKey x wr = (Inl err2, wg, t2)"
      and o: "ops_of t2 = [Goto loginUrl True]"
      using freshLogin_blocked [OF g, of v e cookieKey x] by blast
    have "ensureLoggedIn v R e loginUrl cookieKey x w = (Inl err2, wg, ?t @ t2)"
      using run f by simp
    then show ?thesis using t1 o by (simp add: run_defs)
  qed
  show ?thesis using a b c by blast
qed

theorem failed_restore_falls_back_to_fresh_login_witness:
  "kv_get (demoRuntime None False []) ''k'' demoStart = (Inr None, demoStart) \<and>
   (\<exists>u rest.
      result_of (ensureLoggedIn Stagehand (demoRuntime None False []) demoEnv ''https://ex.com/login'' ''k'' None demoStart) = Inr u \<and>
      ops_of (trace_of (ensureLoggedIn Stagehand (demoRuntime None False []) demoEnv ''https://ex.com/login'' ''k'' None demoStart)) =
        [KvGet ''k''] @ Goto ''https://ex.com/login'' True # WaitForSelector ''.auth0-lock-container'' 5000 #
          WaitForSelector (userSelector demoEnv) 15000 # Query (userSelector demoEnv) # rest \<and>
      WaitForNavigation 15000 \<in> set rest \<and> Click (submitSelector demoEnv) \<in> set rest) \<and>
   json_parse (demoRuntime (Some ''[]'') False []) ''[]'' = Inr (PCookies []) \<and>
   (\<exists>u rest.
      result_of (ensureLoggedIn Stagehand (demoRuntime (Some ''[]'') False []) demoEnv ''https://ex.com/login'' ''k'' None demoStart) = Inr u \<and>
      ops_of (trace_of (ensureLoggedIn Stagehand (demoRuntime (Some ''[]'') False []) demoEnv ''https://ex.com/login'' ''k'' None demoStart)) =
        [KvGet ''k''] @ Goto ''https://ex.com/login'' True # WaitForSelector ''.auth0-lock-container'' 5000 #
          WaitForSelector (userSelector demoEnv) 15000 # Query (userSelector demoEnv) # rest \<and>
      WaitForNavigation 15000 \<in> set rest \<and> Click (submitSelector demoEnv) \<in> set rest) \<and>
   json_parse (demoRuntime (Some ''{oops'') False []) ''{oops'' = Inl (Error ''Unexpected token'') \<and>
   (\<exists>u rest.
      result_of (ensureLoggedIn Stagehand (demoRuntime (Some ''{oops'') False []) demoEnv ''https://ex.com/login'' ''k'' None demoStart) = Inr u \<and>
      ops_of (trace_of (ensureLoggedIn Stagehand (demoRuntime (Some ''{oops'') False []) demoEnv ''https://ex.com/login'' ''k'' None demoStart)) =
        [KvGet ''k''] @ Goto ''https://ex.com/login'' True # WaitForSelector ''.auth0-lock-container'' 5000 #
          WaitForSelector (userSelector demoEnv) 15000 # Query (userSelector demoEnv) # rest \<and>
      WaitForNavigation 15000 \<in> set rest \<and> Click (submitSelector demoEnv) \<in> set rest) \<and>
   kv_get (demoFaulty LookupFails) ''k'' demoStart = (Inl (Error ''KV GET failed''), demoStart) \<and>
   (\<exists>u rest.
      result_of (ensureLoggedIn Puppeteer (demoFaulty LookupFails) demoEnv ''https://ex.com/login'' ''k'' None demoStart) = Inr u \<and>
      ops_of (trace_of (ensureLoggedIn Puppeteer (demoFaulty LookupFails) demoEnv ''https://ex.com/login'' ''k'' None demoStart)) =
        [KvGet ''k''] @ Goto ''https://ex.com/login'' True # WaitForSelector ''.auth0-lock-container'' 5000 #
          WaitForSelector (userSelector demoEnv) 15000 # Query (userSelector demoEnv) # rest \<and>
      WaitForNavigation 15000 \<in> set rest \<and> Click (submitSelector demoEnv) \<in> set rest) \<and>
   page_setCookie (demoFaulty SetCookieFails) [Cookie ''sid'' ''1''] demoStart = (Inl (Error ''Protocol error''), demoStart) \<and>
   (\<exists>u rest.
      result_of (ensureLoggedIn Puppeteer (demoFaulty SetCookieFails) demoEnv ''https://ex.com/login'' ''k'' None demoStart) = Inr u \<and>
      ops_of (trace_of (ensureLoggedIn Puppeteer (demoFaulty SetCookieFails) demoEnv ''https://ex.com/login'' ''k'' None demoStart)) =
        [KvGet ''k'', SetCookie [Cookie ''sid'' ''1'']] @ Goto ''https://ex.com/login'' True # WaitForSelector ''.auth0-lock-container'' 5000 #
          WaitForSelector (userSelector demoEnv) 15000 # Query (userSelector demoEnv) # rest \<and>
      WaitForNavigation 15000 \<in> set rest \<and> Click (submitSelector demoEnv) \<in> set rest) \<and>
   page_goto (demoFaulty GotoFails) ''https://ex.com/login'' True demoStart = (Inl (Error ''net::ERR_ABORTED''), (''about:blank'', 1)) \<and>
   (\<exists>u rest.
      result_of (ensureLoggedIn Puppeteer (demoFaulty GotoFails) demoEnv ''https://ex.com/login'' ''k'' None demoStart) = Inr u \<and>
      ops_of (trace_of (ensureLoggedIn Puppeteer (demoFaulty GotoFails) demoEnv ''https://ex.com/login'' ''k'' None demoStart)) =
        [KvGet ''k'', SetCookie [Cookie ''sid'' ''1''], Goto ''https://ex.com/login'' True] @ Goto ''https://ex.com/login'' True # WaitForSelector ''.auth0-lock-container'' 5000 #
          WaitForSelector (userSelector demoEnv) 15000 # Query (userSelector demoEnv) # rest \<and>
      WaitForNavigation 15000 \<in> set rest \<and> Click (submitSelector demoEnv) \<in> set rest) \<and>
   page_query (demoFaulty ProbeFails) ''.profile-avatar'' (''https://ex.com/login'', 1) =
      (Inl (Error ''Execution context was destroyed''), (''https://ex.com/login'', 1)) \<and>
   (\<exists>u rest.
      result_of (ensureLoggedIn Puppeteer (demoFaulty ProbeFails) demoEnv ''https://ex.com/login'' ''k'' None demoStart) = Inr u \<and>
      ops_of (trace_of (ensureLoggedIn Puppeteer (demoFaulty ProbeFails) demoEnv ''https://ex.com/login'' ''k'' None demoStart)) =
        [KvGet ''k'', SetCookie [Cookie ''sid'' ''1''], Goto ''https://ex.com/login'' True, Query ''.profile-avatar''] @ Goto ''https://ex.com/login'' True # WaitForSelector ''.auth0-lock-container'' 5000 #
          WaitForSelector (userSelector demoEnv) 15000 # Query (userSelector demoEnv) # rest \<and>
      WaitForNavigation 15000 \<in> set rest \<and> Click (submitSelector demoEnv) \<in> set rest) \<and>
   page_goto (demoFaulty NoNetwork) ''https://ex.com/login'' True (''about:blank'', 1) =
      (Inl (Error ''net::ERR_ABORTED''), (''about:blank'', 2)) \<and>
   result_of (ensureLoggedIn Puppeteer (demoFaulty NoNetwork) demoEnv ''https://ex.com/login'' ''k'' None demoStart) =
      Inl (Error ''net::ERR_ABORTED'') \<and>
   ops_of (trace_of (ensureLoggedIn Puppeteer (demoFaulty NoNetwork) demoEnv ''https://ex.com/login'' ''k'' None demoStart)) =
      [KvGet ''k'', SetCookie [Cookie ''sid'' ''1''], Goto ''https://ex.com/login'' True] @ [Goto ''https://ex.com/login'' True]"
proof -
  have absent_f0: "kv_get (demoRuntime None False []) ''k'' demoStart = (Inr None, demoStart)"
    by (simp add: demoFaulty_def demoRuntime_def demoParse_def demoStart_def)
  have absent_h: "restore_fails (demoRuntime None False []) demoEnv ''https://ex.com/login'' ''k'' demoStart
      [KvGet ''k''] demoStart"
    by (simp add: demoFaulty_def demoRuntime_def demoParse_def demoStart_def demoEnv_def
        or_default_def)
  have absent_g: "page_goto (demoRuntime None False []) ''https://ex.com/login'' True demoStart = (Inr (), (''https://ex.com/login'', 1))"
    by (simp add: demoFaulty_def demoRuntime_def demoStart_def)
  note absent_c = failed_restore_falls_back_to_fresh_login [OF absent_h, of Stagehand None,
      THEN conjunct2, THEN conjunct1, rule_format, OF absent_g]
  have hollow_f0: "json_parse (demoRuntime (Some ''[]'') False []) ''[]'' = Inr (PCookies [])"
    by (simp add: demoFaulty_def demoRuntime_def demoParse_def demoStart_def)
  have hollow_h: "restore_fails (demoRuntime (Some ''[]'') False []) demoEnv ''https://ex.com/login'' ''k'' demoStart
      [KvGet ''k''] demoStart"
    by (simp add: demoFaulty_def demoRuntime_def demoParse_def demoStart_def demoEnv_def
        or_default_def)
  have hollow_g: "page_goto (demoRuntime (Some ''[]'') False []) ''https://ex.com/login'' True demoStart = (Inr (), (''https://ex.com/login'', 1))"
    by (simp add: demoFaulty_def demoRuntime_def demoStart_def)
  note hollow_c = failed_restore_falls_back_to_fresh_login [OF hollow_h, of Stagehand None,
      THEN conjunct2, THEN conjunct1, rule_format, OF hollow_g]
  have garbled_f0: "json_parse (demoRuntime (Some ''{oops'') False []) ''{oops'' = Inl (Error ''Unexpected token'')"
    by (simp add: demoFaulty_def demoRuntime_def demoParse_def demoStart_def)
  have garbled_h: "restore_fails (demoRuntime (Some ''{oops'') False []) demoEnv ''https://ex.com/login'' ''k'' demoStart
      [KvGet ''k''] demoStart"
    by (simp add: demoFaulty_def demoRuntime_def demoParse_def demoStart_def demoEnv_def
        or_default_def)
  have garbled_g: "page_goto (demoRuntime (Some ''{oops'') False []) ''https://ex.com/login'' True demoStart = (Inr (), (''https://ex.com/login'', 1))"
    by (simp add: demoFaulty_def demoRuntime_def demoStart_def)
  note garbled_c = failed_restore_falls_back_to_fresh_login [OF garbled_h, of Stagehand None,
      THEN conjunct2, THEN conjunct1, rule_format, OF garbled_g]
  have lookup_f0: "kv_get (demoFaulty LookupFails) ''k'' demoStart = (Inl (Error ''KV GET failed''), demoStart)"
    by (simp add: demoFaulty_def demoRuntime_def demoParse_def demoStart_def)
  have lookup_h: "restore_fails (demoFaulty LookupFails) demoEnv ''https://ex.com/login'' ''k'' demoStart
      [KvGet ''k''] demoStart"
    by (simp add: demoFaulty_def demoRuntime_def demoParse_def demoStart_def demoEnv_def
        or_default_def)
  have lookup_g: "page_goto (demoFaulty LookupFails) ''https://ex.com/login'' True demoStart = (Inr (), (''https://ex.com/login'', 1))"
    by (simp add: demoFaulty_def demoRuntime_def demoStart_def)
  note lookup_c = failed_restore_falls_back_to_fresh_login [OF lookup_h, of Puppeteer None,
      THEN conjunct2, THEN conjunct1, rule_format, OF lookup_g]
  have setCookie_f0: "page_setCookie (demoFaulty SetCookieFails) [Cookie ''sid'' ''1''] demoStart = (Inl (Error ''Protocol error''), demoStart)"
    by (simp add: demoFaulty_def demoRuntime_def demoParse_def demoStart_def)
  have setCookie_h: "restore_fails (demoFaulty SetCookieFails) demoEnv ''https://ex.com/login'' ''k'' demoStart
      [KvGet ''k'', SetCookie [Cookie ''sid'' ''1'']] demoStart"
    by (simp add: demoFaulty_def demoRuntime_def demoParse_def demoStart_def demoEnv_def
        or_default_def)
  have setCookie_g: "page_goto (demoFaulty SetCookieFails) ''https://ex.com/login'' True demoStart = (Inr (), (''https://ex.com/login'', 1))"
    by (simp add: demoFaulty_def demoRuntime_def demoStart_def)
  note setCookie_c = failed_restore_falls_back_to_fresh_login [OF setCookie_h, of Puppeteer None,
      THEN conjunct2, THEN conjunct1, rule_format, OF setCookie_g]
  have goto_f0: "page_goto (demoFaulty GotoFails) ''https://ex.com/login'' True demoStart = (Inl (Error ''net::ERR_ABORTED''), (''about:blank'', 1))"
    by (simp add: demoFaulty_def demoRuntime_def demoParse_def demoStart_def)
  have goto_h: "restore_fails (demoFaulty GotoFails) demoEnv ''https://ex.com/login'' ''k'' demoStart
      [KvGet ''k'', SetCookie [Cookie ''sid'' ''1''], Goto ''https://ex.com/login'' True] (''about:blank'', 1)"
    by (simp add: demoFaulty_def demoRuntime_def demoParse_def demoStart_def demoEnv_def
        or_default_def)
  have goto_g: "page_goto (demoFaulty GotoFails) ''https://ex.com/login'' True (''about:blank'', 1) = (Inr (), (''https://ex.com/login'', 2))"
    by (simp add: demoFaulty_def demoRuntime_def demoStart_def)
  note goto_c = failed_restore_falls_back_to_fresh_login [OF goto_h, of Puppeteer None,
      THEN conjunct2, THEN conjunct1, rule_format, OF goto_g]
  have probe_f0: "page_query (demoFaulty ProbeFails) ''.profile-avatar'' (''https://ex.com/login'', 1) =
      (Inl (Error ''Execution context was destroyed''), (''https://ex.com/login'', 1))"
    by (simp add: demoFaulty_def demoRuntime_def demoParse_def demoStart_def)
  have probe_h: "restore_fails (demoFaulty ProbeFails) demoEnv ''https://ex.com/login'' ''k'' demoStart
      [KvGet ''k'', SetCookie [Cookie ''sid'' ''1''], Goto ''https://ex.com/login'' True, Query ''.profile-avatar''] (''https://ex.com/login'', 1)"
    by (simp add: demoFaulty_def demoRuntime_def demoParse_def demoStart_def demoEnv_def
        or_default_def)
  have probe_g: "page_goto (demoFaulty ProbeFails) ''https://ex.com/login'' True (''https://ex.com/login'', 1) = (Inr (), (''https://ex.com/login'', 2))"
    by (simp add: demoFaulty_def demoRuntime_def demoStart_def)
  note probe_c = failed_restore_falls_back_to_fresh_login [OF probe_h, of Puppeteer None,
      THEN conjunct2, THEN conjunct1, rule_format, OF probe_g]
  have offline_g: "page_goto (demoFaulty NoNetwork) ''https://ex.com/login'' True (''about:blank'', 1) =
      (Inl (Error ''net::ERR_ABORTED''), (''about:blank'', 2))"
    by (simp add: demoFaulty_def demoRuntime_def)
  have offline_h: "restore_fails (demoFaulty NoNetwork) demoEnv ''https://ex.com/login'' ''k'' demoStart
      [KvGet ''k'', SetCookie [Cookie ''sid'' ''1''], Goto ''https://ex.com/login'' True] (''about:blank'', 1)"
    by (simp add: demoFaulty_def demoRuntime_def demoParse_def demoStart_def demoEnv_def
        or_default_def)
  note offline_c = failed_restore_falls_back_to_fresh_login [OF offline_h, of Puppeteer None,
      THEN conjunct2, THEN conjunct2, rule_format, OF offline_g]
  show ?thesis
    using absent_f0 absent_c hollow_f0 hollow_c garbled_f0 garbled_c lookup_f0 lookup_c
      setCookie_f0 setCookie_c goto_f0 goto_c probe_f0 probe_c offline_g offline_c
    by (intro conjI) simp_all
qed

section \<open>Missing credentials\<close>

lemma loginOnly_missing_credentials:
  assumes "credentialsMissing e"
    and "browser_launch R w = (Inr (), w1)" and "browser_close R w1 = (Inr (), w2)"
  shows "loginOnly v R e loginUrl w =
     (Inr (textResponse 400 ''Missing LOGIN_USER / LOGIN_PASS in environment''), w2,
      [Op Launch, Op Close])"
  using assms
  by (simp add: loginOnly_def browserLaunch_def browserClose_def perform_def seqM_def bindM_def
      retM_def)

lemma fetch_puppeteer_missing_credentials:
  assumes "q_action req \<noteq> Some ''clear-cookies''"
    and "or_else (q_url req) (TARGET_URL e) = Some u" and "u \<noteq> []"
    and "url_normalize R u = Inr url"
    and "kv_get_buffer R url w = (Inr None, w1)"
    and "browser_launch R w1 = (Inr (), w2)"
    and "browser_close R w2 = (Inr (), w3)"
    and "or_else (q_login req) (LOGIN_URL e) = Some l" and "l \<noteq> []"
    and "credentialsMissing e"
  shows "result_of (fetch_puppeteer R e req w) =
       Inr (textResponse 400 ''Missing LOGIN_USER / LOGIN_PASS in environment'') \<and>
     ops_of (trace_of (fetch_puppeteer R e req w)) = [KvGetBuffer url, Launch, Close]"
proof -
  obtain c cs where u: "u = c # cs" using assms(3) by (cases u) auto
  obtain d ds where l: "l = d # ds" using assms(9) by (cases l) auto
  show ?thesis
    using assms(1,2,4-8,10)
    by (simp add: fetch_puppeteer_def freshScreenshot_puppeteer_def u l newURL_def
        kvGetBuffer_def browserLaunch_def browserClose_def perform_def seqM_def bindM_def
        retM_def logM_def run_defs)
qed

lemma fetch_puppeteer_missing_credentials_example:
  "result_of (fetch_puppeteer (demoRuntime None False []) (demoEnv\<lparr>LOGIN_USER := None\<rparr>)
      demoRequest demoStart) =
     Inr (textResponse 400 ''Missing LOGIN_USER / LOGIN_PASS in environment'')"
proof -
  let ?R = "demoRuntime None False []"
  let ?e = "demoEnv\<lparr>LOGIN_USER := None\<rparr>"
  have 1: "q_action demoRequest \<noteq> Some ''clear-cookies''" by (simp add: demoRequest_def)
  have 2: "or_else (q_url demoRequest) (TARGET_URL ?e) = Some ''https://ex.com/app''"
    by (simp add: demoRequest_def or_else_def)
  have 3: "''https://ex.com/app'' \<noteq> []" by simp
  have 4: "url_normalize ?R ''https://ex.com/app'' = Inr ''https://ex.com/app''"
    by (simp add: demoRuntime_def)
  have 6: "kv_get_buffer ?R ''https://ex.com/app'' demoStart = (Inr None, demoStart)"
    by (simp add: demoRuntime_def)
  have 7: "browser_launch ?R demoStart = (Inr (), demoStart)" by (simp add: demoRuntime_def)
  have c7: "browser_close ?R demoStart = (Inr (), demoStart)" by (simp add: demoRuntime_def)
  have 8: "or_else (q_login demoRequest) (LOGIN_URL ?e) = Some ''https://ex.com/login''"
    by (simp add: demoRequest_def or_else_def)
  have 9: "''https://ex.com/login'' \<noteq> []" by simp
  have 10: "credentialsMissing ?e" by (simp add: credentialsMissing_def)
  show ?thesis
    using fetch_puppeteer_missing_credentials [OF 1 2 3 4 6 7 c7 8 9 10] by simp
qed

text \<open>
  C3 (the code departs from the claim). The claim: whenever a login URL is present and
  \<open>LOGIN_USER\<close> or \<open>LOGIN_PASS\<close> is missing, the handler answers with status 400 and
  never calls \<open>ensureLoggedIn\<close>, in both workers and on both paths. On three of the four
  paths the code does so (\<open>loginOnly_missing_credentials\<close> for the login-only path of
  both workers, \<open>fetch_puppeteer_missing_credentials\<close>). On the path with a target URL
  the Stagehand worker evaluates the undeclared identifier \<open>browser\<close> before it can
  build the response: with a target URL that is not in the screenshot cache, a login URL
  and a missing credential, the handler throws a ReferenceError instead of returning a
  response, and the browser it has started is not closed. \<open>ensureLoggedIn\<close> is not
  called on that path either: the run holds the cache lookup and the start of the
  browser only.
\<close>

theorem fetch_stagehand_missing_credentials_throws:
  assumes "q_action req \<noteq> Some ''clear-cookies''"
    and "or_else (q_url req) (TARGET_URL e) = Some u" and "u \<noteq> []"
    and "url_normalize R u = Inr url"
    and "\<not> truthy_str (q_nocache req)"
    and "kv_get_buffer R url w = (Inr None, w1)"
    and "browser_launch R w1 = (Inr (), w2)"
    and "or_else (q_login req) (LOGIN_URL e) = Some l" and "l \<noteq> []"
    and "credentialsMissing e"
  shows "result_of (fetch_stagehand R e req w) = Inl (Error ''browser is not defined'') \<and>
     ops_of (trace_of (fetch_stagehand R e req w)) = [KvGetBuffer url, Launch]"
proof -
  obtain c cs where u: "u = c # cs" using assms(3) by (cases u) auto
  obtain d ds where l: "l = d # ds" using assms(9) by (cases l) auto
  show ?thesis
    using assms(1,2,4-8,10)
    by (simp add: fetch_stagehand_def freshScreenshot_stagehand_def undeclaredBrowserClose_def
        u l newURL_def kvGetBuffer_def browserLaunch_def perform_def seqM_def bindM_def
        retM_def throwM_def logM_def run_defs)
qed

theorem fetch_stagehand_missing_credentials_throws_witness:
  "credentialsMissing (demoEnv\<lparr>LOGIN_USER := None\<rparr>) \<and>
   result_of (fetch_stagehand (demoRuntime None False []) (demoEnv\<lparr>LOGIN_USER := None\<rparr>)
      demoRequest demoStart) = Inl (Error ''browser is not defined'') \<and>
   ops_of (trace_of (fetch_stagehand (demoRuntime None False []) (demoEnv\<lparr>LOGIN_USER := None\<rparr>)
      demoRequest demoStart)) = [KvGetBuffer ''https://ex.com/app'', Launch]"
proof -
  let ?R = "demoRuntime None False []"
  let ?e = "demoEnv\<lparr>LOGIN_USER := None\<rparr>"
  have 1: "q_action demoRequest \<noteq> Some ''clear-cookies''" by (simp add: demoRequest_def)
  have 2: "or_else (q_url demoRequest) (TARGET_URL ?e) = Some ''https://ex.com/app''"
    by (simp add: demoRequest_def or_else_def)
  have 3: "''https://ex.com/app'' \<noteq> []" by simp
  have 4: "url_normalize ?R ''https://ex.com/app'' = Inr ''https://ex.com/app''"
    by (simp add: demoRuntime_def)
  have 5: "\<not> truthy_str (q_nocache demoRequest)" by (simp add: demoRequest_def)
  have 6: "kv_get_buffer ?R ''https://ex.com/app'' demoStart = (Inr None, demoStart)"
    by (simp add: demoRuntime_def)
  have 7: "browser_launch ?R demoStart = (Inr (), demoStart)" by (simp add: demoRuntime_def)
  have 8: "or_else (q_login demoRequest) (LOGIN_URL ?e) = Some ''https://ex.com/login''"
    by (simp add: demoRequest_def or_else_def)
  have 9: "''https://ex.com/login'' \<noteq> []" by simp
  have 10: "credentialsMissing ?e" by (simp add: credentialsMissing_def)
  show ?thesis
    using 10 fetch_stagehand_missing_credentials_throws [OF 1 2 3 4 5 6 7 8 9 10] by simp
qed

end
